theory Spec2Isabelle
  imports Main
begin

section \<open>Strings\<close>

text \<open>
  A JavaScript string is a sequence of UTF-16 code units and \<open>.length\<close> counts them.
  The model writes a string as a \<^typ>\<open>string\<close>, one list element per code unit, so
  \<^const>\<open>length\<close> is \<open>.length\<close>; the inputs covered are the strings whose code
  units lie below 256.
\<close>

primrec startsWith :: "string \<Rightarrow> string \<Rightarrow> bool" where
  "startsWith s [] = True"
| "startsWith s (p # ps) = (case s of [] \<Rightarrow> False | c # cs \<Rightarrow> c = p \<and> startsWith cs ps)"

text \<open>\<open>String.prototype.includes\<close>: the argument occurs as a contiguous substring.\<close>

primrec includes' :: "string \<Rightarrow> string \<Rightarrow> bool" where
  "includes' [] sub = (sub = [])"
| "includes' (c # cs) sub = (startsWith (c # cs) sub \<or> includes' cs sub)"

section \<open>The YouTube-link classifier\<close>

text \<open>
  \<open>isYouTubeLink\<close> tests the URL against the regular expression
  \<^verbatim>\<open>/^(http(s)?:\/\/)?((w){3}.)?youtu(be|.be)?(\.com)?\/.+/\<close>.
  The expression has no back-references and no look-around, and \<open>test\<close> only asks
  whether some match exists, so the backtracking matcher is modelled by the list of
  all remainders that a match of the expression can leave.
\<close>

datatype regex =
    Eps
  | Chr char
  | Dot
  | Seq regex regex
  | Alt regex regex
  | Opt regex
  | Plus regex

text \<open>
  Without the \<open>s\<close> flag, \<open>.\<close> matches every code unit but a line terminator; of the
  four line terminators, line feed and carriage return lie below 256.
\<close>

definition lineTerminator :: "char \<Rightarrow> bool" where
  "lineTerminator c = (c = CHR 0x0A \<or> c = CHR 0x0D)"

fun rmatch :: "regex \<Rightarrow> string \<Rightarrow> string list" where
  "rmatch Eps xs = [xs]"
| "rmatch (Chr c) xs = (case xs of [] \<Rightarrow> [] | x # xs' \<Rightarrow> if x = c then [xs'] else [])"
| "rmatch Dot xs = (case xs of [] \<Rightarrow> [] | x # xs' \<Rightarrow> if lineTerminator x then [] else [xs'])"
| "rmatch (Seq a b) xs = concat (map (rmatch b) (rmatch a xs))"
| "rmatch (Alt a b) xs = rmatch a xs @ rmatch b xs"
| "rmatch (Opt a) xs = rmatch a xs @ [xs]"
| "rmatch (Plus a) xs =
     (let rs = rmatch a xs
      in rs @ concat (map (rmatch (Plus a)) (filter (\<lambda>ys. length ys < length xs) rs)))"

text \<open>A literal run of characters, and the bounded repetition \<open>r{n}\<close>.\<close>

definition Lit :: "string \<Rightarrow> regex" where
  "Lit s = foldr (\<lambda>c r. Seq (Chr c) r) s Eps"

definition Times :: "regex \<Rightarrow> nat \<Rightarrow> regex" where
  "Times r n = foldr Seq (replicate n r) Eps"

definition seqs :: "regex list \<Rightarrow> regex" where
  "seqs rs = foldr Seq rs Eps"

definition pattern :: regex where
  "pattern = seqs
     [Opt (seqs [Lit ''http'', Opt (Chr CHR ''s''), Lit ''://'']),
      Opt (seqs [Times (Chr CHR ''w'') 3, Dot]),
      Lit ''youtu'',
      Opt (Alt (Lit ''be'') (Seq Dot (Lit ''be''))),
      Opt (Lit ''.com''),
      Chr CHR ''/'',
      Plus Dot]"

text \<open>The pattern is anchored at the start only: any remainder may follow the match.\<close>

definition test :: "regex \<Rightarrow> string \<Rightarrow> bool" where
  "test r s = (rmatch r s \<noteq> [])"

definition isYouTubeLink :: "string \<Rightarrow> bool" where
  "isYouTubeLink url = test pattern url"


section \<open>The platform's URL parser\<close>

text \<open>
  \<open>new URL(url)\<close> and \<open>searchParams.get\<close> belong to the platform, not to the
  repository. They are modelled after the URL Standard, as far as the repository's code
  depends on them: the leading and trailing C0 control or space characters are
  stripped and tabs and newlines removed; the scheme is scanned; without a scheme the
  parser returns failure, since no base URL is given; the query is what stands between
  the first \<open>?\<close> and the first \<open>#\<close>.

  Whether the remainder is a valid URL is decided exactly for two shapes: a non-special
  scheme not followed by \<open>//\<close> (an opaque or plain path, which always parses) and a
  special scheme followed by a host made of ASCII letters and dots that starts with a
  letter. Every other shape (ports, credentials, IP literals, internationalised names,
  \<open>file:\<close>) is left to the parameter \<open>platformValid\<close>, about which nothing is assumed.
\<close>

definition c0ControlOrSpace :: "char \<Rightarrow> bool" where
  "c0ControlOrSpace c = ((of_char c :: nat) \<le> 32)"

definition asciiTabOrNewline :: "char \<Rightarrow> bool" where
  "asciiTabOrNewline c = (c = CHR 0x09 \<or> c = CHR 0x0A \<or> c = CHR 0x0D)"

definition asciiUpper :: "char \<Rightarrow> bool" where
  "asciiUpper c = (65 \<le> (of_char c :: nat) \<and> (of_char c :: nat) \<le> 90)"

definition asciiLower :: "char \<Rightarrow> bool" where
  "asciiLower c = (97 \<le> (of_char c :: nat) \<and> (of_char c :: nat) \<le> 122)"

definition asciiAlpha :: "char \<Rightarrow> bool" where
  "asciiAlpha c = (asciiUpper c \<or> asciiLower c)"

definition asciiDigit :: "char \<Rightarrow> bool" where
  "asciiDigit c = (48 \<le> (of_char c :: nat) \<and> (of_char c :: nat) \<le> 57)"

definition schemeChar :: "char \<Rightarrow> bool" where
  "schemeChar c = (asciiAlpha c \<or> asciiDigit c \<or> c = CHR ''+'' \<or> c = CHR ''-'' \<or> c = CHR ''.'')"

definition toLower :: "char \<Rightarrow> char" where
  "toLower c = (if asciiUpper c then char_of ((of_char c :: nat) + 32) else c)"

definition preprocess :: "string \<Rightarrow> string" where
  "preprocess input =
     filter (\<lambda>c. \<not> asciiTabOrNewline c)
       (rev (dropWhile c0ControlOrSpace (rev (dropWhile c0ControlOrSpace input))))"

text \<open>
  Scheme start state and scheme state: an ASCII letter, then letters, digits, \<open>+\<close>,
  \<open>-\<close> and \<open>.\<close>, then a colon. The result is the lower-cased scheme and what follows
  the colon; \<open>None\<close> is the no-scheme state.
\<close>

definition scanScheme :: "string \<Rightarrow> (string \<times> string) option" where
  "scanScheme s =
     (case s of
        [] \<Rightarrow> None
      | c # cs \<Rightarrow>
          if \<not> asciiAlpha c then None
          else (case dropWhile schemeChar cs of
                  [] \<Rightarrow> None
                | d # rest \<Rightarrow>
                    if d = CHR '':'' then Some (map toLower (c # takeWhile schemeChar cs), rest)
                    else None))"

definition specialScheme :: "string \<Rightarrow> bool" where
  "specialScheme sch = (sch \<in> set [''http'', ''https'', ''ws'', ''wss'', ''ftp''])"

definition authorityOf :: "string \<Rightarrow> string" where
  "authorityOf rest =
     takeWhile (\<lambda>c. c \<noteq> CHR ''/'' \<and> c \<noteq> CHR 0x5C \<and> c \<noteq> CHR ''?'' \<and> c \<noteq> CHR ''#'')
       (dropWhile (\<lambda>c. c = CHR ''/'' \<or> c = CHR 0x5C) rest)"

definition simpleHost :: "string \<Rightarrow> bool" where
  "simpleHost a =
     (case a of [] \<Rightarrow> False
      | c # cs \<Rightarrow> asciiAlpha c \<and> list_all (\<lambda>d. asciiAlpha d \<or> d = CHR ''.'') cs)"

definition queryOf :: "string \<Rightarrow> string option" where
  "queryOf rest =
     (let beforeFragment = takeWhile (\<lambda>c. c \<noteq> CHR ''#'') rest
      in if CHR ''?'' \<in> set beforeFragment
         then Some (tl (dropWhile (\<lambda>c. c \<noteq> CHR ''?'') beforeFragment))
         else None)"

record URL =
  scheme :: string
  query :: "string option"

datatype error =
    Error string
  | TypeError string
  | RangeError string
  | External string

definition parseURL :: "(string \<Rightarrow> bool) \<Rightarrow> string \<Rightarrow> error + URL" where
  "parseURL platformValid input =
     (let s = preprocess input
      in case scanScheme s of
           None \<Rightarrow> Inl (TypeError ''Invalid URL'')
         | Some (sch, rest) \<Rightarrow>
             if (if sch = ''file'' then platformValid s
                 else if specialScheme sch
                      then simpleHost (authorityOf rest) \<or> platformValid s
                      else \<not> startsWith rest ''//'' \<or> platformValid s)
             then Inr \<lparr>scheme = sch, query = queryOf rest\<rparr>
             else Inl (TypeError ''Invalid URL''))"

text \<open>
  \<open>searchParams\<close>: the query is split at \<open>&\<close>, empty pieces are skipped and each piece
  is split at its first \<open>=\<close>. A name or a value is then decoded: the parser has
  written the query in bytes, a code unit from 128 on as the two bytes of its UTF-8
  form (it writes them, and a few ASCII characters, as percent escapes, which the
  decoding undoes); \<open>+\<close> becomes a space, percent escapes become bytes, and the bytes are
  decoded as UTF-8 into the UTF-16 code units of the resulting string. That string may
  hold code units from 256 on, so it is a list of integers.
\<close>

fun splitOn :: "char \<Rightarrow> string \<Rightarrow> string list" where
  "splitOn sep [] = [[]]"
| "splitOn sep (c # cs) =
     (if c = sep then [] # splitOn sep cs
      else (case splitOn sep cs of [] \<Rightarrow> [[c]] | piece # pieces \<Rightarrow> (c # piece) # pieces))"

definition codeUnits :: "string \<Rightarrow> int list" where
  "codeUnits s = map of_char s"

definition utf8Encode :: "int \<Rightarrow> int list" where
  "utf8Encode c = (if c < 128 then [c] else [192 + c div 64, 128 + c mod 64])"

definition queryBytes :: "string \<Rightarrow> int list" where
  "queryBytes s = concat (map utf8Encode (codeUnits s))"

definition hexValue :: "int \<Rightarrow> int option" where
  "hexValue n =
     (if 48 \<le> n \<and> n \<le> 57 then Some (n - 48)
      else if 65 \<le> n \<and> n \<le> 70 then Some (n - 55)
      else if 97 \<le> n \<and> n \<le> 102 then Some (n - 87)
      else None)"

fun percentDecode :: "int list \<Rightarrow> int list" where
  "percentDecode (c # h # l # rest) =
     (case (hexValue h, hexValue l) of
        (Some a, Some b) \<Rightarrow>
          if c = 37 then (16 * a + b) # percentDecode rest
          else c # percentDecode (h # l # rest)
      | _ \<Rightarrow> c # percentDecode (h # l # rest))"
| "percentDecode cs = cs"

text \<open>
  The UTF-8 decoder of the Encoding Standard. Its state is the number of bytes still
  needed, the code point so far and the bounds of the next byte. \<open>firstByte\<close> is what
  it does with a byte when none is needed: it gives what is put out and the next state.
  A byte that cannot continue a sequence gives U+FFFD and is then read as a first byte;
  an unfinished sequence at the end gives U+FFFD. No byte order mark is removed.
\<close>

type_synonym utf8State = "int \<times> int \<times> int \<times> int"

definition firstByte :: "int \<Rightarrow> int list \<times> utf8State" where
  "firstByte b =
     (if b \<le> 127 then ([b], (0, 0, 128, 191))
      else if 194 \<le> b \<and> b \<le> 223 then ([], (1, b mod 32, 128, 191))
      else if 224 \<le> b \<and> b \<le> 239 then
        ([], (2, b mod 16, if b = 224 then 160 else 128, if b = 237 then 159 else 191))
      else if 240 \<le> b \<and> b \<le> 244 then
        ([], (3, b mod 8, if b = 240 then 144 else 128, if b = 244 then 143 else 191))
      else ([65533], (0, 0, 128, 191)))"

fun utf8Decoder :: "utf8State \<Rightarrow> int list \<Rightarrow> int list" where
  "utf8Decoder (needed, cp, lower, upper) [] = (if needed = 0 then [] else [65533])"
| "utf8Decoder (needed, cp, lower, upper) (b # bs) =
     (if needed = 0 then fst (firstByte b) @ utf8Decoder (snd (firstByte b)) bs
      else if b < lower \<or> upper < b then
        65533 # fst (firstByte b) @ utf8Decoder (snd (firstByte b)) bs
      else if needed = 1 then (cp * 64 + b mod 64) # utf8Decoder (0, 0, 128, 191) bs
      else utf8Decoder (needed - 1, cp * 64 + b mod 64, 128, 191) bs)"

definition utf8Decode :: "int list \<Rightarrow> int list" where
  "utf8Decode bytes = utf8Decoder (0, 0, 128, 191) bytes"

text \<open>A code point as UTF-16 code units: itself, or a pair of surrogates.\<close>

definition utf16Units :: "int \<Rightarrow> int list" where
  "utf16Units cp =
     (if cp < 65536 then [cp]
      else [55296 + (cp - 65536) div 1024, 56320 + (cp - 65536) mod 1024])"

definition formDecode :: "string \<Rightarrow> int list" where
  "formDecode s =
     concat (map utf16Units
       (utf8Decode (percentDecode (map (\<lambda>b. if b = 43 then 32 else b) (queryBytes s)))))"

definition searchParams :: "URL \<Rightarrow> (int list \<times> int list) list" where
  "searchParams u =
     (case query u of
        None \<Rightarrow> []
      | Some q \<Rightarrow>
          map (\<lambda>piece. (formDecode (takeWhile (\<lambda>c. c \<noteq> CHR ''='') piece),
                         formDecode (drop 1 (dropWhile (\<lambda>c. c \<noteq> CHR ''='') piece))))
            (filter (\<lambda>piece. piece \<noteq> []) (splitOn CHR ''&'' q)))"

text \<open>\<open>get\<close> returns the value of the first pair with the name, or \<open>null\<close>.\<close>

definition get :: "(int list \<times> int list) list \<Rightarrow> string \<Rightarrow> int list option" where
  "get params name = map_of params (codeUnits name)"

section \<open>Dates and number formatting\<close>

text \<open>
  \<open>new Date(ms).toISOString()\<close> is the platform's; it is modelled after the ECMAScript
  definitions of \<open>Day\<close>, \<open>DayFromYear\<close>, \<open>YearFromTime\<close>, \<open>MonthFromTime\<close>,
  \<open>DateFromTime\<close> and of the hour, minute, second and millisecond of a time value.
  Time values are integers here: the captions provider reports whole milliseconds.
\<close>

definition digitChar :: "nat \<Rightarrow> char" where
  "digitChar n = ''0123456789'' ! (n mod 10)"

text \<open>A number in exactly \<open>w\<close> decimal digits, as the fields of an ISO date are.\<close>

primrec decimal :: "nat \<Rightarrow> nat \<Rightarrow> string" where
  "decimal 0 n = []"
| "decimal (Suc w) n = decimal w (n div 10) @ [digitChar n]"

text \<open>A number as a template literal prints it.\<close>

fun showNat :: "nat \<Rightarrow> string" where
  "showNat n = (if n < 10 then [digitChar n] else showNat (n div 10) @ [digitChar n])"

definition msPerDay :: int where
  "msPerDay = 86400000"

definition DayFromYear :: "int \<Rightarrow> int" where
  "DayFromYear y = 365 * (y - 1970) + (y - 1969) div 4 - (y - 1901) div 100 + (y - 1601) div 400"

definition DaysInYear :: "int \<Rightarrow> int" where
  "DaysInYear y =
     (if y mod 4 \<noteq> 0 then 365 else if y mod 100 \<noteq> 0 then 366
      else if y mod 400 \<noteq> 0 then 365 else 366)"

text \<open>
  \<open>YearFromTime\<close> is the largest year whose first day is not after the given day. The
  search starts from a year that is not after it and steps forward.
\<close>

function yearSearch :: "int \<Rightarrow> int \<Rightarrow> int" where
  "yearSearch d y = (if DayFromYear (y + 1) \<le> d then yearSearch d (y + 1) else y)"
  by pat_completeness auto
termination
  by (relation "measure (\<lambda>(d, y). nat (d + 1 - DayFromYear (y + 1)))")
     (auto simp: DayFromYear_def)

definition YearFromDay :: "int \<Rightarrow> int" where
  "YearFromDay d = yearSearch d (1970 + (if 0 \<le> d then d div 366 else d div 365))"

definition MonthFromDay :: "int \<Rightarrow> int \<Rightarrow> nat" where
  "MonthFromDay dayInYear leap =
     (if dayInYear < 31 then 0
      else if dayInYear < 59 + leap then 1
      else if dayInYear < 90 + leap then 2
      else if dayInYear < 120 + leap then 3
      else if dayInYear < 151 + leap then 4
      else if dayInYear < 181 + leap then 5
      else if dayInYear < 212 + leap then 6
      else if dayInYear < 243 + leap then 7
      else if dayInYear < 273 + leap then 8
      else if dayInYear < 304 + leap then 9
      else if dayInYear < 334 + leap then 10
      else 11)"

definition DateFromDay :: "int \<Rightarrow> int \<Rightarrow> int" where
  "DateFromDay dayInYear leap =
     (let m = MonthFromDay dayInYear leap
      in if m = 0 then dayInYear + 1
         else if m = 1 then dayInYear - 30
         else dayInYear - leap - [58, 89, 119, 150, 180, 211, 242, 272, 303, 333] ! (m - 2))"

definition yearString :: "int \<Rightarrow> string" where
  "yearString y =
     (if 0 \<le> y \<and> y \<le> 9999 then decimal 4 (nat y)
      else (if y < 0 then ''-'' else ''+'') @ decimal 6 (nat \<bar>y\<bar>))"

definition timeString :: "int \<Rightarrow> string" where
  "timeString t =
     decimal 2 (nat ((t div 3600000) mod 24)) @ '':'' @
     decimal 2 (nat ((t div 60000) mod 60)) @ '':'' @
     decimal 2 (nat ((t div 1000) mod 60)) @ ''.'' @
     decimal 3 (nat (t mod 1000))"

definition toISOString :: "int \<Rightarrow> error + string" where
  "toISOString t =
     (if \<bar>t\<bar> > 8640000000000000 then Inl (RangeError ''Invalid time value'')
      else
        (let d = t div msPerDay;
             y = YearFromDay d;
             dayInYear = d - DayFromYear y;
             leap = (if DaysInYear y = 366 then 1 else 0)
         in Inr (yearString y @ ''-'' @
                 decimal 2 (MonthFromDay dayInYear leap + 1) @ ''-'' @
                 decimal 2 (nat (DateFromDay dayInYear leap)) @ ''T'' @
                 timeString t @ ''Z'')))"

text \<open>\<open>substring(a, b)\<close>: both indices are clamped to the length and swapped if needed.\<close>

definition substring :: "string \<Rightarrow> nat \<Rightarrow> nat \<Rightarrow> string" where
  "substring s a b =
     (let a' = min a (length s); b' = min b (length s)
      in take (max a' b' - min a' b') (drop (min a' b') s))"

text \<open>\<open>replace\<close> with a string pattern replaces the first occurrence only.\<close>

fun replace :: "string \<Rightarrow> string \<Rightarrow> string \<Rightarrow> string" where
  "replace [] pat rep = (if pat = [] then rep else [])"
| "replace (c # cs) pat rep =
     (if startsWith (c # cs) pat then rep @ drop (length pat) (c # cs)
      else c # replace cs pat rep)"

section \<open>The subtitle track\<close>

record segment =
  text' :: string
  duration :: int
  offset :: int

text \<open>
  The \<open>forEach\<close> loop of \<open>getYouTubeSubtitles\<close>, with the index and the accumulated
  \<open>srtContent\<close> as arguments. \<open>toISOString\<close> throws on a time value out of range.
\<close>

fun forEachItem :: "nat \<Rightarrow> string \<Rightarrow> segment list \<Rightarrow> error + string" where
  "forEachItem index srtContent [] = Inr srtContent"
| "forEachItem index srtContent (item # items) =
     (case toISOString (offset item) of
        Inl e \<Rightarrow> Inl e
      | Inr startISO \<Rightarrow>
          (case toISOString (offset item + duration item) of
             Inl e \<Rightarrow> Inl e
           | Inr endISO \<Rightarrow>
               (let start = substring startISO 11 23;
                    end' = substring endISO 11 23
                in forEachItem (index + 1)
                     (srtContent @ showNat (index + 1) @ ''\<newline>'' @
                      replace start ''.'' '','' @ '' --> '' @ replace end' ''.'' '','' @
                      ''\<newline>'' @ text' item @ ''\<newline>\<newline>'')
                     items)))"


section \<open>Pruning the document tree\<close>

text \<open>
  The tree that \<open>rehype-parse\<close> builds is a unist tree: a node has a \<open>type\<close>, an
  element has a \<open>tagName\<close>, and a root or an element has \<open>children\<close>. The properties of
  an element play no part in the pruning and are left out.
\<close>

datatype hast =
    Root "hast list"
  | Doctype
  | Element string "hast list"
  | Text string
  | Comment string

fun nodeType :: "hast \<Rightarrow> string" where
  "nodeType (Root cs) = ''root''"
| "nodeType Doctype = ''doctype''"
| "nodeType (Element tag cs) = ''element''"
| "nodeType (Text v) = ''text''"
| "nodeType (Comment v) = ''comment''"

fun tagName :: "hast \<Rightarrow> string option" where
  "tagName (Element tag cs) = Some tag"
| "tagName node = None"

fun children :: "hast \<Rightarrow> hast list option" where
  "children (Root cs) = Some cs"
| "children (Element tag cs) = Some cs"
| "children node = None"

fun withChildren :: "hast \<Rightarrow> hast list \<Rightarrow> hast" where
  "withChildren (Root cs) cs' = Root cs'"
| "withChildren (Element tag cs) cs' = Element tag cs'"
| "withChildren node cs' = node"

text \<open>
  The two tests the transformer passes to \<open>remove\<close> are objects, which match a node
  whose fields of the same names hold the same values.
\<close>

datatype nodeTest = ByType string | ByTagName string

fun is' :: "nodeTest \<Rightarrow> hast \<Rightarrow> bool" where
  "is' (ByType t) node = (nodeType node = t)"
| "is' (ByTagName t) node = (tagName node = Some t)"

text \<open>
  \<open>remove\<close> of \<open>unist-util-remove\<close> (version 4) walks the tree in preorder. A node other
  than the given tree that passes the test is dropped with all below it; the living
  children of a node are moved to the front of its \<open>children\<close> and the rest cut off;
  with \<open>cascade\<close>, which is on unless an option turns it off, a node other than the given
  tree that had children and lost all of them is dropped too. The transformer runs for
  the changes to the tree and ignores what \<open>remove\<close> returns.
\<close>

fun preorder :: "bool \<Rightarrow> nodeTest \<Rightarrow> hast \<Rightarrow> hast option"
  and living :: "bool \<Rightarrow> nodeTest \<Rightarrow> hast list \<Rightarrow> hast list" where
  "preorder cascade t (Root cs) =
     (if is' t (Root cs) then None
      else if cs = [] then Some (Root cs)
      else if cascade \<and> living cascade t cs = [] then None
      else Some (Root (living cascade t cs)))"
| "preorder cascade t (Element tag cs) =
     (if is' t (Element tag cs) then None
      else if cs = [] then Some (Element tag cs)
      else if cascade \<and> living cascade t cs = [] then None
      else Some (Element tag (living cascade t cs)))"
| "preorder cascade t Doctype = (if is' t Doctype then None else Some Doctype)"
| "preorder cascade t (Text v) = (if is' t (Text v) then None else Some (Text v))"
| "preorder cascade t (Comment v) = (if is' t (Comment v) then None else Some (Comment v))"
| "living cascade t [] = []"
| "living cascade t (c # cs) =
     (case preorder cascade t c of
        None \<Rightarrow> living cascade t cs
      | Some c' \<Rightarrow> c' # living cascade t cs)"

definition remove' :: "bool \<Rightarrow> nodeTest \<Rightarrow> hast \<Rightarrow> hast" where
  "remove' cascade t tree =
     (case children tree of
        None \<Rightarrow> tree
      | Some cs \<Rightarrow> if cs = [] then tree else withChildren tree (living cascade t cs))"

definition removeCommentsAndTables :: "hast \<Rightarrow> hast" where
  "removeCommentsAndTables tree =
     remove' True (ByTagName ''table'') (remove' True (ByType ''comment'') tree)"

text \<open>The nodes of a tree, the tree itself first, and the nodes below it.\<close>

fun nodes :: "hast \<Rightarrow> hast list" where
  "nodes (Root cs) = Root cs # concat (map nodes cs)"
| "nodes (Element tag cs) = Element tag cs # concat (map nodes cs)"
| "nodes node = [node]"

definition descendants :: "hast \<Rightarrow> hast list" where
  "descendants tree = tl (nodes tree)"

text \<open>
  The text a tree holds: the values of all its text and comment nodes; and its prose,
  the values of the text nodes that lie in no \<open>table\<close> element.
\<close>

fun textValues :: "hast \<Rightarrow> string list" where
  "textValues (Root cs) = concat (map textValues cs)"
| "textValues (Element tag cs) = concat (map textValues cs)"
| "textValues (Text v) = [v]"
| "textValues (Comment v) = [v]"
| "textValues Doctype = []"

fun prose :: "hast \<Rightarrow> string list" where
  "prose (Root cs) = concat (map prose cs)"
| "prose (Element tag cs) = (if tag = ''table'' then [] else concat (map prose cs))"
| "prose (Text v) = [v]"
| "prose (Comment v) = []"
| "prose Doctype = []"


section \<open>The environment and its effects\<close>

text \<open>
  What the code reaches outside the repository is a parameter of the model: the network
  (\<open>fetch\<close>, \<open>axios.get\<close>, the captions provider behind
  \<open>YoutubeTranscript.fetchTranscript\<close>), the HTML and markdown libraries and
  \<open>pdf-parse\<close>. Each may throw, so each returns an error or a value. The syntax tree of
  markdown and the binary buffer stay abstract.
\<close>

record response =
  status :: nat
  contentTypeHeader :: "string option"
  responseText :: "error + string"

text \<open>\<open>response.ok\<close>: the status is in the range 200 to 299.\<close>

definition ok :: "response \<Rightarrow> bool" where
  "ok r = (200 \<le> status r \<and> status r \<le> 299)"

record ('m, 'b) env =
  fetch :: "string \<Rightarrow> error + response"
  platformValid :: "string \<Rightarrow> bool"
  fetchTranscript :: "int list \<Rightarrow> error + segment list"
  parse :: "string \<Rightarrow> error + hast"
  rehype2remark :: "hast \<Rightarrow> error + 'm"
  stringify :: "'m \<Rightarrow> error + string"
  axiosGet :: "string \<Rightarrow> error + 'b"
  pdf :: "'b \<Rightarrow> error + string"

text \<open>
  An asynchronous function of the source is a computation that yields the requests it
  has sent, in order, and then an error or a value.
\<close>

datatype request =
    Fetch string
  | ResponseText string
  | FetchTranscript "int list"
  | AxiosGet string

type_synonym 'a io = "request list \<times> (error + 'a)"

definition io_return :: "'a \<Rightarrow> 'a io" where
  "io_return x = ([], Inr x)"

definition io_throw :: "error \<Rightarrow> 'a io" where
  "io_throw e = ([], Inl e)"

definition io_pure :: "error + 'a \<Rightarrow> 'a io" where
  "io_pure r = ([], r)"

definition io_call :: "request \<Rightarrow> error + 'a \<Rightarrow> 'a io" where
  "io_call rq r = ([rq], r)"

definition io_bind :: "'a io \<Rightarrow> ('a \<Rightarrow> 'b io) \<Rightarrow> 'b io" where
  "io_bind m f =
     (case m of
        (sent, Inl e) \<Rightarrow> (sent, Inl e)
      | (sent, Inr x) \<Rightarrow> (case f x of (sent', r) \<Rightarrow> (sent @ sent', r)))"

definition bindE :: "error + 'a \<Rightarrow> ('a \<Rightarrow> error + 'b) \<Rightarrow> error + 'b" where
  "bindE m f = (case m of Inl e \<Rightarrow> Inl e | Inr x \<Rightarrow> f x)"

section \<open>The content normalizer\<close>

text \<open>The three errors the source itself throws, under the names the specification gives them.\<close>

definition FetchFailure :: error where
  "FetchFailure = Error ''Failure fetching content from provided URL''"

definition InvalidInput :: error where
  "InvalidInput = Error ''Invalid YouTube URL''"

definition UnsupportedType :: error where
  "UnsupportedType = Error ''URL provided is not a PDF or HTML document''"

record PDFContent =
  content :: string
  size' :: nat
  type' :: string

record URLDetailContent = PDFContent +
  url' :: string

definition getYouTubeSubtitles :: "('m, 'b) env \<Rightarrow> string \<Rightarrow> string io" where
  "getYouTubeSubtitles env url =
     io_bind (io_pure (parseURL (platformValid env) url)) (\<lambda>parsed.
       case get (searchParams parsed) ''v'' of
         None \<Rightarrow> io_throw InvalidInput
       | Some videoId \<Rightarrow>
           if videoId = [] then io_throw InvalidInput
           else io_bind (io_call (FetchTranscript videoId) (fetchTranscript env videoId))
                  (\<lambda>transcript. io_pure (forEachItem 0 [] transcript)))"

definition htmlToMarkdown :: "('m, 'b) env \<Rightarrow> string \<Rightarrow> error + string" where
  "htmlToMarkdown env html =
     bindE (parse env html) (\<lambda>tree.
     bindE (rehype2remark env (removeCommentsAndTables tree)) (\<lambda>markdown.
     stringify env markdown))"

text \<open>\<open>response.headers.get("content-type") || ""\<close>\<close>

definition contentType :: "response \<Rightarrow> string" where
  "contentType response = (case contentTypeHeader response of None \<Rightarrow> [] | Some h \<Rightarrow> h)"

definition fetchContentFromURL :: "('m, 'b) env \<Rightarrow> string \<Rightarrow> URLDetailContent io" where
  "fetchContentFromURL env url =
     io_bind (io_call (Fetch url) (fetch env url)) (\<lambda>response.
       if \<not> ok response then io_throw FetchFailure
       else if isYouTubeLink url then
         io_bind (getYouTubeSubtitles env url) (\<lambda>srtContent.
           io_return \<lparr>content = srtContent, size' = length srtContent,
                      type' = ''text/plain'', url' = url\<rparr>)
       else if includes' (contentType response) ''text/html'' then
         io_bind (io_call (ResponseText url) (responseText response)) (\<lambda>htmlContent.
         io_bind (io_pure (htmlToMarkdown env htmlContent)) (\<lambda>markdownContent.
           io_return \<lparr>content = markdownContent, size' = length htmlContent,
                      type' = ''text/html'', url' = url\<rparr>))
       else if includes' (contentType response) ''application/pdf'' then
         io_bind (io_call (AxiosGet url) (axiosGet env url)) (\<lambda>pdfBuffer.
         io_bind (io_pure (pdf env pdfBuffer)) (\<lambda>pdfText.
           io_return \<lparr>content = pdfText, size' = length pdfText,
                      type' = ''application/pdf'', url' = url\<rparr>))
       else io_throw UnsupportedType)"

definition getPDFContentFromBuffer :: "('m, 'b) env \<Rightarrow> 'b \<Rightarrow> PDFContent io" where
  "getPDFContentFromBuffer env pdfBuffer =
     io_bind (io_pure (pdf env pdfBuffer)) (\<lambda>pdfText.
       io_return \<lparr>content = pdfText, size' = length pdfText, type' = ''application/pdf''\<rparr>)"


section \<open>Notions the properties are stated with\<close>

text \<open>The words a regular expression matches: what the matcher is measured against.\<close>

primrec lang :: "regex \<Rightarrow> string set" where
  "lang Eps = {[]}"
| "lang (Chr c) = {[c]}"
| "lang Dot = {[c] | c. \<not> lineTerminator c}"
| "lang (Seq a b) = {p @ q | p q. p \<in> lang a \<and> q \<in> lang b}"
| "lang (Alt a b) = lang a \<union> lang b"
| "lang (Opt a) = insert [] (lang a)"
| "lang (Plus a) = {concat ps | ps. ps \<noteq> [] \<and> set ps \<subseteq> lang a}"

text \<open>A string from its first slash on.\<close>

definition fromSlash :: "string \<Rightarrow> string" where
  "fromSlash xs = dropWhile (\<lambda>c. c \<noteq> CHR ''/'') xs"

text \<open>A URL in which the parser finds no scheme.\<close>

definition schemeless :: "string \<Rightarrow> bool" where
  "schemeless u = (scanScheme (preprocess u) = None)"

text \<open>
  The subtitle track as the specification words it: per segment, in order, the 1-based
  cue index, the line \<open>HH:MM:SS,mmm --> HH:MM:SS,mmm\<close> with the end at start plus
  duration, the text and a blank line. \<open>HH\<close> is the hour of the day.
\<close>

definition specTimestamp :: "int \<Rightarrow> string" where
  "specTimestamp t =
     decimal 2 (nat ((t div 3600000) mod 24)) @ '':'' @
     decimal 2 (nat ((t div 60000) mod 60)) @ '':'' @
     decimal 2 (nat ((t div 1000) mod 60)) @ '','' @
     decimal 3 (nat (t mod 1000))"

definition specCue :: "nat \<Rightarrow> segment \<Rightarrow> string" where
  "specCue n item =
     showNat n @ ''\<newline>'' @
     specTimestamp (offset item) @ '' --> '' @ specTimestamp (offset item + duration item) @
     ''\<newline>'' @ text' item @ ''\<newline>\<newline>''"

definition specSubtitles :: "segment list \<Rightarrow> string" where
  "specSubtitles items =
     concat (map (\<lambda>(i, item). specCue (i + 1) item) (enumerate 0 items))"

text \<open>
  A segment whose start and end are times from 1970-01-01T00:00:00.000Z up to
  9999-12-31T23:59:59.999Z, the dates whose year has four digits.
\<close>

definition maxTime :: int where
  "maxTime = 253402300799999"

definition inRange :: "segment \<Rightarrow> bool" where
  "inRange item =
     (0 \<le> offset item \<and> offset item \<le> maxTime \<and>
      0 \<le> offset item + duration item \<and> offset item + duration item \<le> maxTime)"

text \<open>A tree below whose top there is neither a comment nor a \<open>table\<close> element.\<close>

definition pruned :: "hast \<Rightarrow> bool" where
  "pruned tree =
     list_all (\<lambda>n. nodeType n \<noteq> ''comment'' \<and> tagName n \<noteq> Some ''table'')
       (descendants tree)"

text \<open>
  An environment to run the model in: every request for a URL is answered with the
  given response, the captions provider knows one segment, and the libraries are
  stand-ins.
\<close>

definition sampleEnv :: "response \<Rightarrow> (hast, string) env" where
  "sampleEnv r =
     \<lparr>fetch = (\<lambda>u. Inr r),
      platformValid = (\<lambda>s. False),
      fetchTranscript = (\<lambda>videoId. Inr [\<lparr>text' = ''Hi'', duration = 1000, offset = 0\<rparr>]),
      parse = (\<lambda>html. Inr (Root [Comment ''note'', Element ''html'' [Element ''head'' [],
                 Element ''body'' [Element ''p'' [Text ''Hello''],
                   Element ''table'' [Element ''tbody'' [Element ''tr''
                     [Element ''td'' [Text ''X'']]]]]]])),
      rehype2remark = (\<lambda>tree. Inr tree),
      stringify = (\<lambda>tree. Inr (concat (textValues tree))),
      axiosGet = (\<lambda>u. Inr ''%PDF-1.4''),
      pdf = (\<lambda>buffer. Inr ''text of the document'')\<rparr>"

definition sampleResponse :: "nat \<Rightarrow> string \<Rightarrow> response" where
  "sampleResponse code ctype =
     \<lparr>status = code, contentTypeHeader = Some ctype,
      responseText = Inr ''<html><body><p>Hello</p><table><tr><td>X</td></tr></table></body></html>''\<rparr>"


section \<open>The matcher against the language\<close>

declare rmatch.simps(7) [simp del]

lemma rmatch_Plus_set:
  "ys \<in> set (rmatch (Plus a) xs) \<longleftrightarrow>
     ys \<in> set (rmatch a xs) \<or>
     (\<exists>zs \<in> set (rmatch a xs). length zs < length xs \<and> ys \<in> set (rmatch (Plus a) zs))"
  by (subst rmatch.simps(7)) (auto simp: Let_def)

lemma rmatch_Plus_sound:
  assumes a: "\<And>xs ys. ys \<in> set (rmatch a xs) \<Longrightarrow> \<exists>p. p \<in> lang a \<and> xs = p @ ys"
  shows "ys \<in> set (rmatch (Plus a) xs) \<Longrightarrow> \<exists>ps. ps \<noteq> [] \<and> set ps \<subseteq> lang a \<and> xs = concat ps @ ys"
proof (induction "length xs" arbitrary: xs rule: less_induct)
  case less
  from less.prems consider
      (one) "ys \<in> set (rmatch a xs)"
    | (more) zs where "zs \<in> set (rmatch a xs)" "length zs < length xs"
        "ys \<in> set (rmatch (Plus a) zs)"
    by (auto simp: rmatch_Plus_set[of ys a xs])
  then show ?case
  proof cases
    case one
    then obtain p where "p \<in> lang a" "xs = p @ ys" using a by blast
    then have "[p] \<noteq> [] \<and> set [p] \<subseteq> lang a \<and> xs = concat [p] @ ys" by simp
    then show ?thesis by blast
  next
    case more
    then obtain p where p: "p \<in> lang a" "xs = p @ zs" using a by blast
    from less.hyps[OF more(2) more(3)] obtain ps where
      ps: "ps \<noteq> []" "set ps \<subseteq> lang a" "zs = concat ps @ ys" by blast
    from p ps have "p # ps \<noteq> [] \<and> set (p # ps) \<subseteq> lang a \<and> xs = concat (p # ps) @ ys"
      by simp
    then show ?thesis by blast
  qed
qed

lemma rmatch_sound:
  "ys \<in> set (rmatch r xs) \<Longrightarrow> \<exists>p. p \<in> lang r \<and> xs = p @ ys"
proof (induction r arbitrary: xs ys)
  case Eps
  then show ?case by simp
next
  case (Chr c)
  then show ?case by (cases xs) (simp_all split: if_splits)
next
  case Dot
  then show ?case by (cases xs) (simp_all split: if_splits)
next
  case (Seq a b)
  from Seq.prems obtain zs where zs: "zs \<in> set (rmatch a xs)" "ys \<in> set (rmatch b zs)"
    by auto
  from Seq.IH(1)[OF zs(1)] obtain p where p: "p \<in> lang a" "xs = p @ zs" by blast
  from Seq.IH(2)[OF zs(2)] obtain q where q: "q \<in> lang b" "zs = q @ ys" by blast
  from p q have "p @ q \<in> lang (Seq a b) \<and> xs = (p @ q) @ ys" by auto
  then show ?case by blast
next
  case (Alt a b)
  from Alt.prems have "ys \<in> set (rmatch a xs) \<or> ys \<in> set (rmatch b xs)" by simp
  then show ?case
  proof
    assume "ys \<in> set (rmatch a xs)"
    from Alt.IH(1)[OF this] show ?thesis by auto
  next
    assume "ys \<in> set (rmatch b xs)"
    from Alt.IH(2)[OF this] show ?thesis by auto
  qed
next
  case (Opt a)
  from Opt.prems have "ys \<in> set (rmatch a xs) \<or> ys = xs" by auto
  then show ?case
  proof
    assume "ys \<in> set (rmatch a xs)"
    from Opt.IH[OF this] show ?thesis by auto
  next
    assume "ys = xs"
    then show ?thesis by simp
  qed
next
  case (Plus a)
  from rmatch_Plus_sound[OF Plus.IH Plus.prems] show ?case by auto
qed

lemma rmatch_Plus_complete:
  assumes a: "\<And>p s. p \<in> lang a \<Longrightarrow> s \<in> set (rmatch a (p @ s))"
  shows "ps \<noteq> [] \<Longrightarrow> set ps \<subseteq> lang a \<Longrightarrow> s \<in> set (rmatch (Plus a) (concat ps @ s))"
proof (induction ps)
  case Nil
  then show ?case by simp
next
  case (Cons p ps)
  show ?case
  proof (cases "ps = []")
    case True
    with Cons.prems a[of p s] show ?thesis by (simp add: rmatch_Plus_set[of s a "p @ s"])
  next
    case False
    with Cons have ih: "s \<in> set (rmatch (Plus a) (concat ps @ s))" by simp
    from Cons.prems a[of p "concat ps @ s"]
    have step: "concat ps @ s \<in> set (rmatch a (p @ concat ps @ s))" by simp
    show ?thesis
    proof (cases "p = []")
      case True
      with ih show ?thesis by simp
    next
      case False
      with step ih show ?thesis
        by (subst rmatch_Plus_set) auto
    qed
  qed
qed

lemma rmatch_complete:
  "p \<in> lang r \<Longrightarrow> s \<in> set (rmatch r (p @ s))"
proof (induction r arbitrary: p s)
  case (Seq a b)
  from Seq.prems obtain p1 p2 where p: "p = p1 @ p2" "p1 \<in> lang a" "p2 \<in> lang b" by auto
  from Seq.IH(1)[OF p(2), of "p2 @ s"] Seq.IH(2)[OF p(3), of s] p(1)
  show ?case by auto
next
  case Dot
  from Dot.prems obtain c where "p = [c]" "\<not> lineTerminator c" by auto
  then show ?case by simp
next
  case (Plus a)
  from Plus.prems obtain ps where "ps \<noteq> []" "set ps \<subseteq> lang a" "p = concat ps" by auto
  with rmatch_Plus_complete[OF Plus.IH] show ?case by blast
qed auto

lemma test_iff: "test r s \<longleftrightarrow> (\<exists>p t. p \<in> lang r \<and> s = p @ t)"
proof
  assume "test r s"
  then obtain ys where "ys \<in> set (rmatch r s)" by (cases "rmatch r s") (auto simp: test_def)
  from rmatch_sound[OF this] show "\<exists>p t. p \<in> lang r \<and> s = p @ t" by blast
next
  assume "\<exists>p t. p \<in> lang r \<and> s = p @ t"
  then obtain p t where "p \<in> lang r" "s = p @ t" by blast
  with rmatch_complete[of p r t] show "test r s" by (auto simp: test_def)
qed

lemma test_append: "test r s \<Longrightarrow> test r (s @ t)"
  by (metis test_iff append.assoc)


lemma lang_Lit: "lang (Lit s) = {s}"
  by (induction s) (auto simp: Lit_def)

lemma lang_seqs_Nil: "lang (seqs []) = {[]}"
  by (simp add: seqs_def)

lemma lang_seqs_Cons: "lang (seqs (r # rs)) = {p @ q | p q. p \<in> lang r \<and> q \<in> lang (seqs rs)}"
  by (simp add: seqs_def)

lemma lang_seqs_ConsD:
  "p \<in> lang (seqs (r # rs)) \<Longrightarrow> \<exists>p1 p2. p1 \<in> lang r \<and> p = p1 @ p2 \<and> p2 \<in> lang (seqs rs)"
  unfolding lang_seqs_Cons by blast

lemma lang_Times_www: "lang (Times (Chr CHR ''w'') 3) = {''www''}"
  by (auto simp: Times_def numeral_3_eq_3)

lemma lang_Plus_nonempty:
  assumes "q \<in> lang (Plus Dot)"
  shows "\<exists>c q'. q = c # q'"
proof -
  from assms obtain ps where ps: "ps \<noteq> []" "set ps \<subseteq> lang Dot" "q = concat ps" by auto
  then obtain x xs where "ps = x # xs" by (cases ps) auto
  with ps obtain c where "x = [c]" by auto
  with ps \<open>ps = x # xs\<close> show ?thesis by simp
qed

lemma lang_patternD:
  assumes "p \<in> lang pattern"
  shows "\<exists>p1 p2 p3 p4 c q.
           p = p1 @ p2 @ ''youtu'' @ p3 @ p4 @ ''/'' @ c # q \<and>
           (p1 = [] \<or> p1 = ''http://'' \<or> p1 = ''https://'') \<and>
           (p2 = [] \<or> (\<exists>d. p2 = ''www'' @ [d])) \<and>
           (p3 = [] \<or> p3 = ''be'' \<or> (\<exists>d. p3 = d # ''be'')) \<and>
           (p4 = [] \<or> p4 = ''.com'')"
proof -
  note E = lang_seqs_ConsD
  from E[OF assms[unfolded pattern_def]] obtain p1 r1 where
    p1: "p1 \<in> lang (Opt (seqs [Lit ''http'', Opt (Chr CHR ''s''), Lit ''://'']))" and
    r1: "p = p1 @ r1" and m1: "r1 \<in> lang (seqs [Opt (seqs [Times (Chr CHR ''w'') 3, Dot]),
      Lit ''youtu'', Opt (Alt (Lit ''be'') (Seq Dot (Lit ''be''))), Opt (Lit ''.com''),
      Chr CHR ''/'', Plus Dot])" by blast
  from E[OF m1] obtain p2 r2 where
    p2: "p2 \<in> lang (Opt (seqs [Times (Chr CHR ''w'') 3, Dot]))" and
    r2: "r1 = p2 @ r2" and m2: "r2 \<in> lang (seqs [Lit ''youtu'',
      Opt (Alt (Lit ''be'') (Seq Dot (Lit ''be''))), Opt (Lit ''.com''),
      Chr CHR ''/'', Plus Dot])" by blast
  from E[OF m2] obtain r3 where
    r3: "r2 = ''youtu'' @ r3" and m3: "r3 \<in> lang (seqs [
      Opt (Alt (Lit ''be'') (Seq Dot (Lit ''be''))), Opt (Lit ''.com''),
      Chr CHR ''/'', Plus Dot])" unfolding lang_Lit by blast
  from E[OF m3] obtain p3 r4 where
    p3: "p3 \<in> lang (Opt (Alt (Lit ''be'') (Seq Dot (Lit ''be''))))" and
    r4: "r3 = p3 @ r4" and m4: "r4 \<in> lang (seqs [Opt (Lit ''.com''),
      Chr CHR ''/'', Plus Dot])" by blast
  from E[OF m4] obtain p4 r5 where
    p4: "p4 \<in> lang (Opt (Lit ''.com''))" and
    r5: "r4 = p4 @ r5" and m5: "r5 \<in> lang (seqs [Chr CHR ''/'', Plus Dot])" by blast
  from E[OF m5] obtain r6 where
    r6: "r5 = ''/'' @ r6" and m6: "r6 \<in> lang (seqs [Plus Dot])" by auto
  from E[OF m6] obtain q where q: "q \<in> lang (Plus Dot)" and r7: "r6 = q"
    unfolding lang_seqs_Nil by auto
  from r1 r2 r3 r4 r5 r6 r7 have p: "p = p1 @ p2 @ ''youtu'' @ p3 @ p4 @ ''/'' @ q" by simp
  from q obtain c q' where q': "q = c # q'" using lang_Plus_nonempty by blast
  from p1 have 1: "p1 = [] \<or> p1 = ''http://'' \<or> p1 = ''https://''"
    by (auto simp: lang_seqs_Cons lang_seqs_Nil lang_Lit)
  from p2 have 2: "p2 = [] \<or> (\<exists>d. p2 = ''www'' @ [d])"
    by (auto simp: lang_seqs_Cons lang_seqs_Nil lang_Times_www)
  from p3 have 3: "p3 = [] \<or> p3 = ''be'' \<or> (\<exists>d. p3 = d # ''be'')"
    by (auto simp: lang_Lit)
  from p4 have 4: "p4 = [] \<or> p4 = ''.com''"
    by (auto simp: lang_Lit)
  from p q' 1 2 3 4 show ?thesis by blast
qed

lemma fromSlash_host: "CHR ''/'' \<notin> set h \<Longrightarrow> fromSlash (h @ ''/'' @ r) = ''/'' @ r"
  by (induction h) (auto simp: fromSlash_def)

lemma body_fromSlash:
  assumes "p2 = [] \<or> (\<exists>d. p2 = ''www'' @ [d])"
      and "p3 = [] \<or> p3 = ''be'' \<or> (\<exists>d. p3 = d # ''be'')"
      and "p4 = [] \<or> p4 = ''.com''"
  shows "\<exists>x r. fromSlash (p2 @ ''youtu'' @ p3 @ p4 @ ''/'' @ c # q) = CHR ''/'' # x # r"
  using assms by (auto simp: fromSlash_def)

lemma body_hd:
  assumes "p2 = [] \<or> (\<exists>d. p2 = ''www'' @ [d])"
  shows "\<exists>r. p2 @ ''youtu'' @ r' = CHR ''y'' # r \<or> p2 @ ''youtu'' @ r' = CHR ''w'' # r"
  using assms by auto

lemma empty_path_rejected:
  assumes h: "CHR ''/'' \<notin> set h"
      and s: "s = [] \<or> s = ''http://'' \<or> s = ''https://''"
  shows "\<not> isYouTubeLink (s @ h @ ''/'')"
proof
  assume "isYouTubeLink (s @ h @ ''/'')"
  then obtain p t where pt: "p \<in> lang pattern" "s @ h @ ''/'' = p @ t"
    by (auto simp: isYouTubeLink_def test_iff)
  from lang_patternD[OF pt(1)] obtain p1 p2 p3 p4 c q where
    p: "p = p1 @ p2 @ ''youtu'' @ p3 @ p4 @ ''/'' @ c # q" and
    1: "p1 = [] \<or> p1 = ''http://'' \<or> p1 = ''https://''" and
    2: "p2 = [] \<or> (\<exists>d. p2 = ''www'' @ [d])" and
    3: "p3 = [] \<or> p3 = ''be'' \<or> (\<exists>d. p3 = d # ''be'')" and
    4: "p4 = [] \<or> p4 = ''.com''"
    by blast
  define body where "body = p2 @ ''youtu'' @ p3 @ p4 @ ''/'' @ c # (q @ t)"
  from pt(2) p have eq: "s @ h @ ''/'' = p1 @ body" by (simp add: body_def)
  from body_fromSlash[OF 2 3 4, of c "q @ t"] obtain x r where
    fs: "fromSlash body = CHR ''/'' # x # r" by (auto simp: body_def)
  from body_hd[OF 2, of "p3 @ p4 @ ''/'' @ c # (q @ t)"] obtain r' where
    hd: "body = CHR ''y'' # r' \<or> body = CHR ''w'' # r'" by (auto simp: body_def)
  have "h @ ''/'' = body \<or> h @ ''/'' = ''http://'' @ body \<or> h @ ''/'' = ''https://'' @ body"
    using eq s 1 hd by auto
  then have "fromSlash (h @ ''/'' @ []) = fromSlash body
      \<or> fromSlash (h @ ''/'' @ []) = fromSlash (''http://'' @ body)
      \<or> fromSlash (h @ ''/'' @ []) = fromSlash (''https://'' @ body)" by auto
  then show False
    unfolding fromSlash_host[OF h] using fs by (auto simp: fromSlash_def)
qed

section \<open>Timestamps\<close>

lemma length_decimal: "length (decimal w n) = w"
  by (induction w arbitrary: n) auto

lemma digitChar_cases: "digitChar n \<in> set ''0123456789''"
proof -
  have "n mod 10 < length ''0123456789''" by simp
  then show ?thesis unfolding digitChar_def by (rule nth_mem)
qed

lemma digitChar_not_dot: "digitChar n \<noteq> CHR ''.''"
  using digitChar_cases[of n] by auto

lemma dot_notin_decimal: "CHR ''.'' \<notin> set (decimal w n)"
  by (induction w arbitrary: n) (auto simp: digitChar_not_dot[symmetric])

lemma yearSearch_le: "y \<le> Y \<Longrightarrow> d < DayFromYear (Y + 1) \<Longrightarrow> yearSearch d y \<le> Y"
proof (induction d y rule: yearSearch.induct)
  case (1 d y)
  show ?case
  proof (cases "DayFromYear (y + 1) \<le> d")
    case True
    with "1.prems" have "y \<noteq> Y" by auto
    with "1.prems" have "y + 1 \<le> Y" by simp
    from "1.IH"[OF True this "1.prems"(2)] True show ?thesis by simp
  next
    case False
    with "1.prems" show ?thesis by simp
  qed
qed

lemma yearSearch_ge: "y \<le> yearSearch d y"
proof (induction d y rule: yearSearch.induct)
  case (1 d y)
  then show ?case by (cases "DayFromYear (y + 1) \<le> d") auto
qed

text \<open>
  The search does find the year of the ECMAScript definition: the year's first day is
  not after the given day, and the next year's first day is.
\<close>

lemma yearSearch_upper: "d < DayFromYear (yearSearch d y + 1)"
proof (induction d y rule: yearSearch.induct)
  case (1 d y)
  then show ?case by (cases "DayFromYear (y + 1) \<le> d") auto
qed

lemma yearSearch_lower: "DayFromYear y \<le> d \<Longrightarrow> DayFromYear (yearSearch d y) \<le> d"
proof (induction d y rule: yearSearch.induct)
  case (1 d y)
  then show ?case by (cases "DayFromYear (y + 1) \<le> d") auto
qed

lemma div_times_le: "0 < b \<Longrightarrow> b * (x div b) \<le> (x::int)"
proof -
  assume "0 < b"
  then have "0 \<le> x mod b" by (rule pos_mod_sign)
  moreover have "b * (x div b) + x mod b = x" by (rule mult_div_mod_eq)
  ultimately show ?thesis by linarith
qed

lemma less_div_times: "0 < b \<Longrightarrow> (x::int) < b * (x div b) + b"
proof -
  assume "0 < b"
  then have "x mod b < b" by (rule pos_mod_bound)
  moreover have "b * (x div b) + x mod b = x" by (rule mult_div_mod_eq)
  ultimately show ?thesis by linarith
qed

lemma leap_days_nonneg:
  assumes "0 \<le> (k::int)"
  shows "(k + 1) div 4 - (k + 69) div 100 + (k + 369) div 400 \<le> k"
proof -
  define A where "A = (k + 1) div 4"
  define B where "B = (k + 69) div 100"
  define C where "C = (k + 369) div 400"
  have a: "4 * A \<le> k + 1" unfolding A_def by (rule div_times_le) simp
  have b: "0 \<le> B" unfolding B_def using assms by (simp add: pos_imp_zdiv_nonneg_iff)
  have c: "400 * C \<le> k + 369" unfolding C_def by (rule div_times_le) simp
  consider "k = 0" | "k = 1" | "2 \<le> k" using assms by linarith
  then have "A - B + C \<le> k"
  proof cases
    case 1
    then show ?thesis by (simp add: A_def B_def C_def)
  next
    case 2
    then show ?thesis by (simp add: A_def B_def C_def)
  next
    case 3
    with a b c show ?thesis by linarith
  qed
  then show ?thesis by (simp only: A_def B_def C_def)
qed

lemma leap_days_neg:
  assumes "(k::int) < 0"
  shows "(k + 1) div 4 - (k + 69) div 100 + (k + 369) div 400 \<le> 0"
proof -
  define A where "A = (k + 1) div 4"
  define B where "B = (k + 69) div 100"
  define C where "C = (k + 369) div 400"
  have a: "4 * A \<le> k + 1" unfolding A_def by (rule div_times_le) simp
  have b: "k + 69 < 100 * B + 100" unfolding B_def by (rule less_div_times) simp
  have c: "400 * C \<le> k + 369" unfolding C_def by (rule div_times_le) simp
  consider "k = -1" | "k \<le> -2" using assms by linarith
  then have "A - B + C \<le> 0"
  proof cases
    case 1
    then show ?thesis by (simp add: A_def B_def C_def)
  next
    case 2
    with a b c show ?thesis by linarith
  qed
  then show ?thesis by (simp only: A_def B_def C_def)
qed

lemma DayFromYear_1970: "DayFromYear (1970 + k) =
    365 * k + ((k + 1) div 4 - (k + 69) div 100 + (k + 369) div 400)"
proof -
  have e: "1970 + k - 1970 = k" "1970 + k - 1969 = k + 1" "1970 + k - 1901 = k + 69"
    "1970 + k - 1601 = k + 369" by simp_all
  show ?thesis unfolding DayFromYear_def e by (simp only: diff_conv_add_uminus add.assoc)
qed

lemma year_estimate:
  "DayFromYear (1970 + (if 0 \<le> d then d div 366 else d div 365)) \<le> d"
proof (cases "0 \<le> d")
  case True
  define k where "k = d div 366"
  have k: "0 \<le> k" "366 * k \<le> d" using True by (auto simp: k_def)
  define L where "L = (k + 1) div 4 - (k + 69) div 100 + (k + 369) div 400"
  from leap_days_nonneg[OF k(1)] have "L \<le> k" by (simp only: L_def)
  with k have "365 * k + L \<le> d" by linarith
  then have "DayFromYear (1970 + k) \<le> d" by (simp only: DayFromYear_1970 L_def)
  with True show ?thesis by (simp add: k_def)
next
  case False
  define k where "k = d div 365"
  have k: "k < 0" "365 * k \<le> d" using False by (auto simp: k_def)
  define L where "L = (k + 1) div 4 - (k + 69) div 100 + (k + 369) div 400"
  from leap_days_neg[OF k(1)] have "L \<le> 0" by (simp only: L_def)
  with k have "365 * k + L \<le> d" by linarith
  then have "DayFromYear (1970 + k) \<le> d" by (simp only: DayFromYear_1970 L_def)
  with False show ?thesis by (simp add: k_def)
qed

lemma YearFromDay_bounds:
  "DayFromYear (YearFromDay d) \<le> d \<and> d < DayFromYear (YearFromDay d + 1)"
  unfolding YearFromDay_def using yearSearch_lower[OF year_estimate] yearSearch_upper by blast

lemma YearFromDay_range:
  assumes "0 \<le> d" "d \<le> 2932896"
  shows "0 \<le> YearFromDay d \<and> YearFromDay d \<le> 9999"
proof -
  let ?s = "1970 + d div 366"
  have s: "1970 \<le> ?s" "?s \<le> 9999" using assms by auto
  have "d < DayFromYear (9999 + 1)" using assms by (simp add: DayFromYear_def)
  from yearSearch_le[OF s(2) this] yearSearch_ge[of ?s d] s(1) assms(1)
  show ?thesis by (simp add: YearFromDay_def)
qed

lemma length_timeString: "length (timeString t) = 12"
  by (simp add: timeString_def length_decimal)

lemma toISOString_time:
  assumes "0 \<le> t" "t \<le> maxTime"
  shows "\<exists>s. toISOString t = Inr s \<and> substring s 11 23 = timeString t"
proof -
  have d: "0 \<le> t div msPerDay" "t div msPerDay \<le> 2932896"
    using assms by (auto simp: msPerDay_def maxTime_def)
  from YearFromDay_range[OF d] have y: "yearString (YearFromDay (t div msPerDay)) =
      decimal 4 (nat (YearFromDay (t div msPerDay)))" by (simp add: yearString_def)
  have big: "\<not> \<bar>t\<bar> > 8640000000000000" using assms by (simp add: maxTime_def)
  show ?thesis
    using big by (simp add: toISOString_def Let_def y substring_def length_decimal length_timeString)
qed

lemma replace_first_dot:
  "CHR ''.'' \<notin> set a \<Longrightarrow> replace (a @ CHR ''.'' # b) ''.'' '','' = a @ CHR '','' # b"
  by (induction a) auto

lemma replace_timeString: "replace (timeString t) ''.'' '','' = specTimestamp t"
proof -
  let ?a = "decimal 2 (nat ((t div 3600000) mod 24)) @ '':'' @
     decimal 2 (nat ((t div 60000) mod 60)) @ '':'' @
     decimal 2 (nat ((t div 1000) mod 60))"
  have "CHR ''.'' \<notin> set ?a" by (simp add: dot_notin_decimal)
  from replace_first_dot[OF this, of "decimal 3 (nat (t mod 1000))"]
  show ?thesis by (simp add: timeString_def specTimestamp_def)
qed

lemma forEachItem_spec:
  "list_all inRange items \<Longrightarrow>
   forEachItem index srtContent items =
     Inr (srtContent @ concat (map (\<lambda>(i, item). specCue (i + 1) item) (enumerate index items)))"
proof (induction items arbitrary: index srtContent)
  case Nil
  then show ?case by simp
next
  case (Cons item items)
  from Cons.prems have r: "inRange item" and rest: "list_all inRange items" by simp_all
  from r toISOString_time[of "offset item"] obtain s1 where
    s1: "toISOString (offset item) = Inr s1" "substring s1 11 23 = timeString (offset item)"
    by (auto simp: inRange_def)
  from r toISOString_time[of "offset item + duration item"] obtain s2 where
    s2: "toISOString (offset item + duration item) = Inr s2"
        "substring s2 11 23 = timeString (offset item + duration item)"
    by (auto simp: inRange_def)
  show ?case
    by (simp add: s1 s2 Cons.IH[OF rest] replace_timeString specCue_def del: replace.simps)
qed

section \<open>Pruning\<close>

lemma is'_shallow:
  "is' t (Root cs) = is' t (Root cs')" "is' t (Element tag cs) = is' t (Element tag cs')"
  by (cases t; simp)+

lemma living_fails_test:
  "preorder c t node = Some node' \<Longrightarrow> \<forall>m \<in> set (nodes node'). \<not> is' t m"
  "\<forall>m \<in> set (concat (map nodes (living c t cs))). \<not> is' t m"
proof (induction c t node and c t cs arbitrary: node' rule: preorder_living.induct)
  case (1 cascade t cs)
  then show ?case using is'_shallow(1)[of t cs] by (auto split: if_splits)
next
  case (2 cascade t tag cs)
  then show ?case using is'_shallow(2)[of t tag cs] by (auto split: if_splits)
next
  case (7 cascade t c cs)
  then show ?case by (auto split: option.splits)
qed (auto split: if_splits)

lemma living_keeps_absent:
  "preorder c t node = Some node' \<Longrightarrow> \<forall>m \<in> set (nodes node). \<not> is' q m \<Longrightarrow>
     \<forall>m \<in> set (nodes node'). \<not> is' q m"
  "\<forall>m \<in> set (concat (map nodes cs)). \<not> is' q m \<Longrightarrow>
     \<forall>m \<in> set (concat (map nodes (living c t cs))). \<not> is' q m"
proof (induction c t node and c t cs arbitrary: node' rule: preorder_living.induct)
  case (1 cascade t cs)
  then show ?case using is'_shallow(1)[of q cs] by (auto split: if_splits)
next
  case (2 cascade t tag cs)
  then show ?case using is'_shallow(2)[of q tag cs] by (auto split: if_splits)
next
  case (7 cascade t c cs)
  then show ?case by (auto split: option.splits)
qed (auto split: if_splits)

lemma living_prose:
  "preorder c t node = Some node' \<Longrightarrow> set (prose node') \<subseteq> set (prose node)"
  "set (concat (map prose (living c t cs))) \<subseteq> set (concat (map prose cs))"
proof (induction c t node and c t cs arbitrary: node' rule: preorder_living.induct)
  case (7 cascade t c cs)
  then show ?case by (auto split: option.splits)
qed (auto split: if_splits)

lemma textValues_prose:
  "\<forall>m \<in> set (nodes n). \<not> is' (ByType ''comment'') m \<and> \<not> is' (ByTagName ''table'') m \<Longrightarrow>
     textValues n = prose n"
proof (induction n)
  case (Root cs)
  then have m: "map textValues cs = map prose cs" by (intro map_cong) auto
  show ?case by (simp add: m)
next
  case (Element tag cs)
  then have m: "map textValues cs = map prose cs" by (intro map_cong) auto
  from Element.prems have "tag \<noteq> ''table''" by auto
  then show ?case by (simp add: m)
qed auto

lemma remove'_Root: "remove' c t (Root cs) = Root (living c t cs)"
  by (cases cs) (auto simp: remove'_def)

lemma descendants_Root: "descendants (Root cs) = concat (map nodes cs)"
  by (simp add: descendants_def)

lemma removeCommentsAndTables_Root:
  "removeCommentsAndTables (Root cs) =
     Root (living True (ByTagName ''table'') (living True (ByType ''comment'') cs))"
  by (simp add: removeCommentsAndTables_def remove'_Root)

lemma pruned_Root:
  "pruned (removeCommentsAndTables (Root cs))"
proof -
  let ?cs1 = "living True (ByType ''comment'') cs"
  let ?cs2 = "living True (ByTagName ''table'') ?cs1"
  have 1: "\<forall>m \<in> set (concat (map nodes ?cs1)). \<not> is' (ByType ''comment'') m"
    by (rule living_fails_test(2))
  have 2: "\<forall>m \<in> set (concat (map nodes ?cs2)). \<not> is' (ByType ''comment'') m"
    by (rule living_keeps_absent(2)[OF 1])
  have 3: "\<forall>m \<in> set (concat (map nodes ?cs2)). \<not> is' (ByTagName ''table'') m"
    by (rule living_fails_test(2))
  from 2 3 show ?thesis
    unfolding pruned_def removeCommentsAndTables_Root descendants_Root list_all_iff by simp
qed

lemma pruned_text:
  "set (textValues (removeCommentsAndTables (Root cs))) \<subseteq> set (prose (Root cs))"
proof -
  let ?cs1 = "living True (ByType ''comment'') cs"
  let ?cs2 = "living True (ByTagName ''table'') ?cs1"
  have 1: "\<forall>m \<in> set (concat (map nodes ?cs1)). \<not> is' (ByType ''comment'') m"
    by (rule living_fails_test(2))
  have 2: "\<forall>m \<in> set (concat (map nodes ?cs2)). \<not> is' (ByType ''comment'') m"
    by (rule living_keeps_absent(2)[OF 1])
  have 3: "\<forall>m \<in> set (concat (map nodes ?cs2)). \<not> is' (ByTagName ''table'') m"
    by (rule living_fails_test(2))
  have "map textValues ?cs2 = map prose ?cs2"
    using 2 3 by (intro map_cong refl textValues_prose) auto
  then have "set (textValues (Root ?cs2)) = set (concat (map prose ?cs2))"
    by (simp only: textValues.simps)
  also have "\<dots> \<subseteq> set (concat (map prose ?cs1))" by (rule living_prose(2))
  also have "\<dots> \<subseteq> set (concat (map prose cs))" by (rule living_prose(2))
  finally show ?thesis by (simp add: removeCommentsAndTables_Root)
qed

section \<open>Dispatch\<close>

lemmas io_defs = io_bind_def io_call_def io_pure_def io_return_def io_throw_def

lemma fetch_not_ok:
  assumes "fetch env u = Inr r" "\<not> ok r"
  shows "fetchContentFromURL env u = ([Fetch u], Inl FetchFailure)"
  using assms by (simp add: fetchContentFromURL_def io_defs)

lemma fetch_unsupported:
  assumes "fetch env u = Inr r" "ok r" "\<not> isYouTubeLink u"
    and "\<not> includes' (contentType r) ''text/html''"
    and "\<not> includes' (contentType r) ''application/pdf''"
  shows "fetchContentFromURL env u = ([Fetch u], Inl UnsupportedType)"
  using assms by (simp add: fetchContentFromURL_def io_defs)

lemma fetch_html:
  assumes "fetch env u = Inr r" "ok r" "\<not> isYouTubeLink u"
    and "includes' (contentType r) ''text/html''"
    and "responseText r = Inr html"
  shows "fetchContentFromURL env u =
           (case htmlToMarkdown env html of
              Inl e \<Rightarrow> ([Fetch u, ResponseText u], Inl e)
            | Inr markdown \<Rightarrow>
                ([Fetch u, ResponseText u],
                 Inr \<lparr>content = markdown, size' = length html, type' = ''text/html'', url' = u\<rparr>))"
  using assms by (simp add: fetchContentFromURL_def io_defs split: sum.splits)

lemma fetch_pdf:
  assumes "fetch env u = Inr r" "ok r" "\<not> isYouTubeLink u"
    and "\<not> includes' (contentType r) ''text/html''"
    and "includes' (contentType r) ''application/pdf''"
  shows "fetchContentFromURL env u =
           (case axiosGet env u of
              Inl e \<Rightarrow> ([Fetch u, AxiosGet u], Inl e)
            | Inr pdfBuffer \<Rightarrow>
                (case pdf env pdfBuffer of
                   Inl e \<Rightarrow> ([Fetch u, AxiosGet u], Inl e)
                 | Inr pdfText \<Rightarrow>
                     ([Fetch u, AxiosGet u],
                      Inr \<lparr>content = pdfText, size' = length pdfText,
                           type' = ''application/pdf'', url' = u\<rparr>)))"
  using assms by (simp add: fetchContentFromURL_def io_defs split: sum.splits)

lemma fetch_youtube:
  assumes "fetch env u = Inr r" "ok r" "isYouTubeLink u"
  shows "fetchContentFromURL env u =
           (case getYouTubeSubtitles env u of
              (sent, Inl e) \<Rightarrow> (Fetch u # sent, Inl e)
            | (sent, Inr srtContent) \<Rightarrow>
                (Fetch u # sent,
                 Inr \<lparr>content = srtContent, size' = length srtContent,
                      type' = ''text/plain'', url' = u\<rparr>))"
  using assms by (simp add: fetchContentFromURL_def io_defs split: sum.splits prod.splits)

lemma subtitles_requests:
  "set (fst (getYouTubeSubtitles env u)) \<subseteq> range FetchTranscript"
  by (auto simp: getYouTubeSubtitles_def io_defs split: sum.splits option.splits prod.splits if_splits)

lemma watch_url_accepted:
  "isYouTubeLink (''https://www.youtube.com/watch?v='' @ vid)"
  "isYouTubeLink (''https://youtube.com/watch?v='' @ vid)"
proof -
  have 1: "test pattern ''https://www.youtube.com/w''" by code_simp
  have 2: "test pattern ''https://youtube.com/w''" by code_simp
  from test_append[OF 1, of "''atch?v='' @ vid"]
  show "isYouTubeLink (''https://www.youtube.com/watch?v='' @ vid)"
    by (simp add: isYouTubeLink_def)
  from test_append[OF 2, of "''atch?v='' @ vid"]
  show "isYouTubeLink (''https://youtube.com/watch?v='' @ vid)"
    by (simp add: isYouTubeLink_def)
qed

lemma ok_iff: "ok r \<longleftrightarrow> \<not> (status r < 200 \<or> 299 < status r)"
  by (auto simp: ok_def)

lemma specSubtitles_eq:
  "list_all inRange items \<Longrightarrow> forEachItem 0 [] items = Inr (specSubtitles items)"
  using forEachItem_spec[of items 0 "[]"] by (simp add: specSubtitles_def)

lemma short_link_root_parses:
  "parseURL pv ''https://youtu.be/'' = Inr \<lparr>scheme = ''https'', query = None\<rparr>"
  by (simp add: parseURL_def preprocess_def scanScheme_def c0ControlOrSpace_def
      asciiTabOrNewline_def asciiAlpha_def asciiUpper_def asciiLower_def asciiDigit_def
      schemeChar_def toLower_def specialScheme_def authorityOf_def simpleHost_def queryOf_def)

lemma no_video_id:
  assumes "parseURL (platformValid env) u = Inr parsed"
    and "get (searchParams parsed) ''v'' = None \<or> get (searchParams parsed) ''v'' = Some []"
  shows "getYouTubeSubtitles env u = ([], Inl InvalidInput)"
  using assms by (auto simp: getYouTubeSubtitles_def io_defs)

lemma not_youtube_dispatch:
  assumes "\<not> isYouTubeLink u"
  shows "fetchContentFromURL env u =
     io_bind (io_call (Fetch u) (fetch env u)) (\<lambda>response.
       if \<not> ok response then io_throw FetchFailure
       else if includes' (contentType response) ''text/html'' then
         io_bind (io_call (ResponseText u) (responseText response)) (\<lambda>htmlContent.
         io_bind (io_pure (htmlToMarkdown env htmlContent)) (\<lambda>markdownContent.
           io_return \<lparr>content = markdownContent, size' = length htmlContent,
                      type' = ''text/html'', url' = u\<rparr>))
       else if includes' (contentType response) ''application/pdf'' then
         io_bind (io_call (AxiosGet u) (axiosGet env u)) (\<lambda>pdfBuffer.
         io_bind (io_pure (pdf env pdfBuffer)) (\<lambda>pdfText.
           io_return \<lparr>content = pdfText, size' = length pdfText,
                      type' = ''application/pdf'', url' = u\<rparr>))
       else io_throw UnsupportedType)"
  using assms by (simp add: fetchContentFromURL_def cong: if_cong)

lemma not_youtube_requests:
  assumes "\<not> isYouTubeLink u"
  shows "FetchTranscript videoId \<notin> set (fst (fetchContentFromURL env u))"
  using assms
  by (auto simp: fetchContentFromURL_def io_defs split: sum.splits if_splits prod.splits)

text \<open>
  A URL without a colon has no scheme. A colon can stand where the pattern has a dot,
  and then the parser does find a scheme.
\<close>

lemma no_colon_schemeless:
  assumes "CHR '':'' \<notin> set u"
  shows "schemeless u"
proof -
  have s: "CHR '':'' \<notin> set (preprocess u)"
  proof
    assume "CHR '':'' \<in> set (preprocess u)"
    then have "CHR '':'' \<in> set (rev (dropWhile c0ControlOrSpace (rev (dropWhile c0ControlOrSpace u))))"
      by (simp add: preprocess_def)
    then have "CHR '':'' \<in> set (dropWhile c0ControlOrSpace (rev (dropWhile c0ControlOrSpace u)))"
      by simp
    then have "CHR '':'' \<in> set (dropWhile c0ControlOrSpace u)"
      using set_dropWhileD by fastforce
    then have "CHR '':'' \<in> set u" by (rule set_dropWhileD)
    with assms show False by simp
  qed
  have "scanScheme s = None" if n: "CHR '':'' \<notin> set s" for s
  proof (cases "scanScheme s")
    case None
    then show ?thesis .
  next
    case (Some found)
    then obtain c cs rest where "s = c # cs" "dropWhile schemeChar cs = CHR '':'' # rest"
      by (auto simp: scanScheme_def split: list.splits if_splits)
    then have "CHR '':'' \<in> set (dropWhile schemeChar cs)" by simp
    then have "CHR '':'' \<in> set cs" by (rule set_dropWhileD)
    with n \<open>s = c # cs\<close> show ?thesis by simp
  qed
  from this[OF s] show ?thesis by (simp add: schemeless_def)
qed

lemma colon_under_the_dot_has_scheme:
  "isYouTubeLink ''youtu:be/watch?v=abc'' \<and> \<not> schemeless ''youtu:be/watch?v=abc'' \<and>
   getYouTubeSubtitles (sampleEnv (sampleResponse 200 ''text/html'')) ''youtu:be/watch?v=abc''
     = ([FetchTranscript (codeUnits ''abc'')], Inr ''1\<newline>00:00:00,000 --> 00:00:01,000\<newline>Hi\<newline>\<newline>'')"
  by code_simp

text \<open>
  The video id is the decoded value: percent escapes are read as UTF-8, and bytes that
  are not UTF-8 become U+FFFD.
\<close>

lemma video_id_is_decoded:
  "get (searchParams \<lparr>scheme = ''https'', query = Some ''t=1&v=%C3%A9+%F0%9F%98%80%FF''\<rparr>) ''v''
     = Some [233, 32, 55357, 56832, 65533]"
  by code_simp

section \<open>The claims\<close>

text \<open>
  C1, as amended. For every URL \<open>https://www.youtube.com/watch?v=<id>\<close> or
  \<open>https://youtube.com/watch?v=<id>\<close> and every response with a success status,
  whatever its content type and body, the URL is classified as YouTube and
  \<open>fetchContentFromURL\<close> hands over to \<open>getYouTubeSubtitles\<close>: an error of the
  extractor is passed on, and its result \<open>srtContent\<close> is returned as the record with
  this URL, \<open>srtContent\<close>, its length and the type \<open>text/plain\<close>. The body of the
  response is never read.
\<close>

theorem youtube_watch_url_delegates:
  assumes "u = ''https://www.youtube.com/watch?v='' @ vid \<or> u = ''https://youtube.com/watch?v='' @ vid"
    and "fetch env u = Inr r" and "ok r"
  shows "isYouTubeLink u \<and>
         fetchContentFromURL env u =
           (case getYouTubeSubtitles env u of
              (sent, Inl e) \<Rightarrow> (Fetch u # sent, Inl e)
            | (sent, Inr srtContent) \<Rightarrow>
                (Fetch u # sent,
                 Inr \<lparr>content = srtContent, size' = length srtContent,
                      type' = ''text/plain'', url' = u\<rparr>)) \<and>
         ResponseText u \<notin> set (fst (fetchContentFromURL env u))"
proof -
  from assms(1) have y: "isYouTubeLink u" using watch_url_accepted by auto
  note eq = fetch_youtube[OF assms(2) assms(3) y]
  have "ResponseText u \<notin> set (fst (getYouTubeSubtitles env u))"
    using subtitles_requests[of env u] by auto
  then have "ResponseText u \<notin> set (fst (fetchContentFromURL env u))"
    unfolding eq by (auto split: prod.splits sum.splits)
  with y eq show ?thesis by simp
qed

theorem youtube_watch_url_delegates_witness:
  "(''https://youtube.com/watch?v=abc'' = ''https://www.youtube.com/watch?v='' @ ''abc'' \<or>
    ''https://youtube.com/watch?v=abc'' = ''https://youtube.com/watch?v='' @ ''abc'') \<and>
   fetch (sampleEnv (sampleResponse 200 ''application/pdf'')) ''https://youtube.com/watch?v=abc''
     = Inr (sampleResponse 200 ''application/pdf'') \<and>
   ok (sampleResponse 200 ''application/pdf'') \<and>
   isYouTubeLink ''https://youtube.com/watch?v=abc'' \<and>
   fetchContentFromURL (sampleEnv (sampleResponse 200 ''application/pdf''))
       ''https://youtube.com/watch?v=abc''
     = ([Fetch ''https://youtube.com/watch?v=abc'', FetchTranscript (codeUnits ''abc'')],
        Inr \<lparr>content = ''1\<newline>00:00:00,000 --> 00:00:01,000\<newline>Hi\<newline>\<newline>'', size' = 36,
             type' = ''text/plain'', url' = ''https://youtube.com/watch?v=abc''\<rparr>)"
proof -
  have 1: "''https://youtube.com/watch?v=abc'' = ''https://www.youtube.com/watch?v='' @ ''abc'' \<or>
    ''https://youtube.com/watch?v=abc'' = ''https://youtube.com/watch?v='' @ ''abc''" by simp
  have 2: "fetch (sampleEnv (sampleResponse 200 ''application/pdf'')) ''https://youtube.com/watch?v=abc''
     = Inr (sampleResponse 200 ''application/pdf'')" by (simp add: sampleEnv_def)
  have 3: "ok (sampleResponse 200 ''application/pdf'')" by (simp add: ok_def sampleResponse_def)
  have 4: "getYouTubeSubtitles (sampleEnv (sampleResponse 200 ''application/pdf''))
       ''https://youtube.com/watch?v=abc''
     = ([FetchTranscript (codeUnits ''abc'')], Inr ''1\<newline>00:00:00,000 --> 00:00:01,000\<newline>Hi\<newline>\<newline>'')"
    by code_simp
  from youtube_watch_url_delegates[OF 1 2 3] 2 3 show ?thesis by (simp add: 4)
qed

text \<open>
  C1 as first stated, for any response whatever, fails on a response with status 404:
  the URL is a YouTube link and the extractor would deliver the subtitles, but
  \<open>fetchContentFromURL\<close> throws before it looks at the URL.
\<close>

theorem youtube_watch_url_not_found_counterexample:
  "isYouTubeLink ''https://www.youtube.com/watch?v=abc'' \<and>
   getYouTubeSubtitles (sampleEnv (sampleResponse 404 ''text/html''))
       ''https://www.youtube.com/watch?v=abc''
     = ([FetchTranscript (codeUnits ''abc'')], Inr ''1\<newline>00:00:00,000 --> 00:00:01,000\<newline>Hi\<newline>\<newline>'') \<and>
   fetchContentFromURL (sampleEnv (sampleResponse 404 ''text/html''))
       ''https://www.youtube.com/watch?v=abc''
     = ([Fetch ''https://www.youtube.com/watch?v=abc''],
        Inl (Error ''Failure fetching content from provided URL''))"
  by code_simp

text \<open>
  C2. Whenever the first request for the URL is answered with a status outside 200 to
  299, \<open>fetchContentFromURL\<close> throws the error "Failure fetching content from provided
  URL" and returns no record; the one \<open>fetch\<close> is the only request it has sent, so
  nothing is retried.
\<close>

theorem non_success_status_fails:
  assumes "fetch env u = Inr r" and "status r < 200 \<or> 299 < status r"
  shows "fetchContentFromURL env u = ([Fetch u], Inl FetchFailure)"
  using assms fetch_not_ok[of env u r] by (simp add: ok_iff)

theorem non_success_status_fails_witness:
  "fetch (sampleEnv (sampleResponse 404 ''text/html'')) ''https://example.com/gone''
     = Inr (sampleResponse 404 ''text/html'') \<and>
   (status (sampleResponse 404 ''text/html'') < 200 \<or> 299 < status (sampleResponse 404 ''text/html'')) \<and>
   fetchContentFromURL (sampleEnv (sampleResponse 404 ''text/html'')) ''https://example.com/gone''
     = ([Fetch ''https://example.com/gone''],
        Inl (Error ''Failure fetching content from provided URL''))"
proof -
  have 1: "fetch (sampleEnv (sampleResponse 404 ''text/html'')) ''https://example.com/gone''
     = Inr (sampleResponse 404 ''text/html'')" by (simp add: sampleEnv_def)
  have 2: "status (sampleResponse 404 ''text/html'') < 200 \<or> 299 < status (sampleResponse 404 ''text/html'')"
    by (simp add: sampleResponse_def)
  from non_success_status_fails[OF 1 2] 1 2 show ?thesis by (simp add: FetchFailure_def)
qed

text \<open>
  C3. Whatever tree the parser builds for the HTML, the converter hands the pruned tree
  to the markdown conversion: below its root there is no comment node and no
  \<open>table\<close> element at any depth, and every text it still holds is the text of a text
  node of the parsed tree that lies in no \<open>table\<close> element.
\<close>

theorem pruning_is_complete:
  assumes "parse env html = Inr (Root cs)"
  shows "htmlToMarkdown env html =
           bindE (rehype2remark env (removeCommentsAndTables (Root cs))) (stringify env) \<and>
         pruned (removeCommentsAndTables (Root cs)) \<and>
         set (textValues (removeCommentsAndTables (Root cs))) \<subseteq> set (prose (Root cs))"
  using assms pruned_Root[of cs] pruned_text[of cs]
  by (simp add: htmlToMarkdown_def bindE_def)

theorem pruning_is_complete_witness:
  "parse (sampleEnv (sampleResponse 200 ''text/html'')) ''<!--note--><p>Hello</p><table><tr><td>X</td></tr></table>''
     = Inr (Root [Comment ''note'', Element ''html'' [Element ''head'' [],
                 Element ''body'' [Element ''p'' [Text ''Hello''],
                   Element ''table'' [Element ''tbody'' [Element ''tr''
                     [Element ''td'' [Text ''X'']]]]]]]) \<and>
   removeCommentsAndTables (Root [Comment ''note'', Element ''html'' [Element ''head'' [],
                 Element ''body'' [Element ''p'' [Text ''Hello''],
                   Element ''table'' [Element ''tbody'' [Element ''tr''
                     [Element ''td'' [Text ''X'']]]]]]])
     = Root [Element ''html'' [Element ''head'' [], Element ''body'' [Element ''p'' [Text ''Hello'']]]] \<and>
   htmlToMarkdown (sampleEnv (sampleResponse 200 ''text/html'')) ''<!--note--><p>Hello</p><table><tr><td>X</td></tr></table>''
     = Inr ''Hello'' \<and>
   pruned (Root [Element ''html'' [Element ''head'' [], Element ''body'' [Element ''p'' [Text ''Hello'']]]])"
proof -
  let ?e = "sampleEnv (sampleResponse 200 ''text/html'')"
  let ?cs = "[Comment ''note'', Element ''html'' [Element ''head'' [],
                 Element ''body'' [Element ''p'' [Text ''Hello''],
                   Element ''table'' [Element ''tbody'' [Element ''tr''
                     [Element ''td'' [Text ''X'']]]]]]]"
  have 1: "parse ?e ''<!--note--><p>Hello</p><table><tr><td>X</td></tr></table>'' = Inr (Root ?cs)"
    by (simp add: sampleEnv_def)
  have 2: "removeCommentsAndTables (Root ?cs)
     = Root [Element ''html'' [Element ''head'' [], Element ''body'' [Element ''p'' [Text ''Hello'']]]]"
    by code_simp
  have 3: "htmlToMarkdown ?e ''<!--note--><p>Hello</p><table><tr><td>X</td></tr></table>'' = Inr ''Hello''"
    by code_simp
  from pruning_is_complete[OF 1] 1 2 3 show ?thesis by simp
qed

text \<open>
  C4. For a URL with a video id and any segments the captions provider returns whose
  start and end lie in the range of \<open>inRange\<close>, \<open>getYouTubeSubtitles\<close> returns the
  subtitle track of the specification: the segments in their order, each as its 1-based
  index, the line \<open>HH:MM:SS,mmm --> HH:MM:SS,mmm\<close> from the start to the start plus
  the duration, with a comma before the milliseconds, the text and a blank line. For
  the one segment with offset 0, duration 1000 and text \<open>Hi\<close> this is
  \<open>1\n00:00:00,000 --> 00:00:01,000\nHi\n\n\<close>.
\<close>

theorem subtitles_are_serialised_in_order:
  assumes "parseURL (platformValid env) u = Inr parsed"
    and "get (searchParams parsed) ''v'' = Some videoId" and "videoId \<noteq> []"
    and "fetchTranscript env videoId = Inr items"
    and "list_all inRange items"
  shows "getYouTubeSubtitles env u = ([FetchTranscript videoId], Inr (specSubtitles items)) \<and>
         specSubtitles [\<lparr>text' = ''Hi'', duration = 1000, offset = 0\<rparr>]
           = ''1\<newline>00:00:00,000 --> 00:00:01,000\<newline>Hi\<newline>\<newline>''"
proof -
  have "specSubtitles [\<lparr>text' = ''Hi'', duration = 1000, offset = 0\<rparr>]
           = ''1\<newline>00:00:00,000 --> 00:00:01,000\<newline>Hi\<newline>\<newline>''" by code_simp
  moreover have "getYouTubeSubtitles env u = ([FetchTranscript videoId], Inr (specSubtitles items))"
    using assms(1-4) specSubtitles_eq[OF assms(5)]
    by (simp add: getYouTubeSubtitles_def io_defs)
  ultimately show ?thesis by simp
qed

theorem subtitles_are_serialised_in_order_witness:
  "parseURL (platformValid (sampleEnv (sampleResponse 200 ''text/html'')))
       ''https://www.youtube.com/watch?v=abc''
     = Inr \<lparr>scheme = ''https'', query = Some ''v=abc''\<rparr> \<and>
   get (searchParams \<lparr>scheme = ''https'', query = Some ''v=abc''\<rparr>) ''v'' = Some (codeUnits ''abc'') \<and>
   codeUnits ''abc'' \<noteq> [] \<and>
   fetchTranscript (sampleEnv (sampleResponse 200 ''text/html'')) (codeUnits ''abc'')
     = Inr [\<lparr>text' = ''Hi'', duration = 1000, offset = 0\<rparr>] \<and>
   list_all inRange [\<lparr>text' = ''Hi'', duration = 1000, offset = 0\<rparr>] \<and>
   getYouTubeSubtitles (sampleEnv (sampleResponse 200 ''text/html''))
       ''https://www.youtube.com/watch?v=abc''
     = ([FetchTranscript (codeUnits ''abc'')], Inr ''1\<newline>00:00:00,000 --> 00:00:01,000\<newline>Hi\<newline>\<newline>'')"
proof -
  let ?e = "sampleEnv (sampleResponse 200 ''text/html'')"
  have 1: "parseURL (platformValid ?e) ''https://www.youtube.com/watch?v=abc''
     = Inr \<lparr>scheme = ''https'', query = Some ''v=abc''\<rparr>" by code_simp
  have 2: "get (searchParams \<lparr>scheme = ''https'', query = Some ''v=abc''\<rparr>) ''v'' = Some (codeUnits ''abc'')"
    by code_simp
  have 3: "codeUnits ''abc'' \<noteq> []" by (simp add: codeUnits_def)
  have 4: "fetchTranscript ?e (codeUnits ''abc'') = Inr [\<lparr>text' = ''Hi'', duration = 1000, offset = 0\<rparr>]"
    by (simp add: sampleEnv_def)
  have 5: "list_all inRange [\<lparr>text' = ''Hi'', duration = 1000, offset = 0\<rparr>]"
    by (simp add: inRange_def maxTime_def)
  from subtitles_are_serialised_in_order[OF 1 2 3 4 5] 1 2 3 4 5 show ?thesis by simp
qed

text \<open>
  C5. For a response with a success status to a URL that is no YouTube link, whose
  content type contains \<open>text/html\<close>, \<open>fetchContentFromURL\<close> returns the record whose
  content is the markdown the converter makes of the body, whose type is
  \<open>text/html\<close> and whose size is the length of the body as received, not of the
  markdown.
\<close>

theorem html_size_is_raw_length:
  assumes "fetch env u = Inr r" and "ok r" and "\<not> isYouTubeLink u"
    and "includes' (contentType r) ''text/html''"
    and "responseText r = Inr html"
    and "htmlToMarkdown env html = Inr markdown"
  shows "fetchContentFromURL env u =
           ([Fetch u, ResponseText u],
            Inr \<lparr>content = markdown, size' = length html, type' = ''text/html'', url' = u\<rparr>)"
  using fetch_html[OF assms(1-5)] assms(6) by simp

theorem html_size_is_raw_length_witness:
  "fetch (sampleEnv (sampleResponse 200 ''text/html; charset=utf-8'')) ''https://example.com/''
     = Inr (sampleResponse 200 ''text/html; charset=utf-8'') \<and>
   ok (sampleResponse 200 ''text/html; charset=utf-8'') \<and>
   \<not> isYouTubeLink ''https://example.com/'' \<and>
   includes' (contentType (sampleResponse 200 ''text/html; charset=utf-8'')) ''text/html'' \<and>
   responseText (sampleResponse 200 ''text/html; charset=utf-8'')
     = Inr ''<html><body><p>Hello</p><table><tr><td>X</td></tr></table></body></html>'' \<and>
   htmlToMarkdown (sampleEnv (sampleResponse 200 ''text/html; charset=utf-8''))
       ''<html><body><p>Hello</p><table><tr><td>X</td></tr></table></body></html>''
     = Inr ''Hello'' \<and>
   fetchContentFromURL (sampleEnv (sampleResponse 200 ''text/html; charset=utf-8''))
       ''https://example.com/''
     = ([Fetch ''https://example.com/'', ResponseText ''https://example.com/''],
        Inr \<lparr>content = ''Hello'', size' = 72, type' = ''text/html'',
             url' = ''https://example.com/''\<rparr>)"
proof -
  let ?r = "sampleResponse 200 ''text/html; charset=utf-8''"
  let ?h = "''<html><body><p>Hello</p><table><tr><td>X</td></tr></table></body></html>''"
  have 1: "fetch (sampleEnv ?r) ''https://example.com/'' = Inr ?r" by (simp add: sampleEnv_def)
  have 2: "ok ?r" by (simp add: ok_def sampleResponse_def)
  have 3: "\<not> isYouTubeLink ''https://example.com/''" by code_simp
  have 4: "includes' (contentType ?r) ''text/html''" by code_simp
  have 5: "responseText ?r = Inr ?h" by (simp add: sampleResponse_def)
  have 6: "htmlToMarkdown (sampleEnv ?r) ?h = Inr ''Hello''" by code_simp
  from html_size_is_raw_length[OF 1 2 3 4 5 6] 1 2 3 4 5 6 show ?thesis by simp
qed

text \<open>
  C6, as amended. For every URL that the URL parser accepts and whose query has no
  parameter \<open>v\<close>, or an empty one, \<open>getYouTubeSubtitles\<close> throws the error "Invalid
  YouTube URL" without asking the captions provider, and so does
  \<open>fetchContentFromURL\<close> for such a URL that is classified as YouTube and fetched with a
  success status. The extractor, called on \<open>https://youtu.be/\<close>, throws exactly this
  error; that URL is not classified as YouTube.
\<close>

theorem missing_video_id_is_invalid_input:
  "(parseURL (platformValid env) u = Inr parsed \<longrightarrow>
    (get (searchParams parsed) ''v'' = None \<or> get (searchParams parsed) ''v'' = Some []) \<longrightarrow>
      getYouTubeSubtitles env u = ([], Inl InvalidInput) \<and>
      (isYouTubeLink u \<longrightarrow> fetch env u = Inr r \<longrightarrow> ok r \<longrightarrow>
         fetchContentFromURL env u = ([Fetch u], Inl InvalidInput))) \<and>
   getYouTubeSubtitles env ''https://youtu.be/'' = ([], Inl InvalidInput) \<and>
   \<not> isYouTubeLink ''https://youtu.be/''"
proof (intro conjI impI)
  assume a: "parseURL (platformValid env) u = Inr parsed"
    "get (searchParams parsed) ''v'' = None \<or> get (searchParams parsed) ''v'' = Some []"
  from no_video_id[OF a] show s: "getYouTubeSubtitles env u = ([], Inl InvalidInput)" .
  assume "isYouTubeLink u" "fetch env u = Inr r" "ok r"
  from fetch_youtube[OF this(2) this(3) this(1)] s
  show "fetchContentFromURL env u = ([Fetch u], Inl InvalidInput)" by simp
next
  have "get (searchParams \<lparr>scheme = ''https'', query = None\<rparr>) ''v'' = None"
    by (simp add: searchParams_def get_def)
  with no_video_id[OF short_link_root_parses, of env]
  show "getYouTubeSubtitles env ''https://youtu.be/'' = ([], Inl InvalidInput)" by simp
next
  show "\<not> isYouTubeLink ''https://youtu.be/''" by code_simp
qed

theorem missing_video_id_is_invalid_input_witness:
  "parseURL (platformValid (sampleEnv (sampleResponse 200 ''text/html''))) ''https://youtu.be/abc''
     = Inr \<lparr>scheme = ''https'', query = None\<rparr> \<and>
   get (searchParams \<lparr>scheme = ''https'', query = None\<rparr>) ''v'' = None \<and>
   isYouTubeLink ''https://youtu.be/abc'' \<and>
   fetch (sampleEnv (sampleResponse 200 ''text/html'')) ''https://youtu.be/abc''
     = Inr (sampleResponse 200 ''text/html'') \<and>
   ok (sampleResponse 200 ''text/html'') \<and>
   getYouTubeSubtitles (sampleEnv (sampleResponse 200 ''text/html'')) ''https://youtu.be/abc''
     = ([], Inl (Error ''Invalid YouTube URL'')) \<and>
   fetchContentFromURL (sampleEnv (sampleResponse 200 ''text/html'')) ''https://youtu.be/abc''
     = ([Fetch ''https://youtu.be/abc''], Inl (Error ''Invalid YouTube URL''))"
proof -
  let ?e = "sampleEnv (sampleResponse 200 ''text/html'')"
  have 1: "parseURL (platformValid ?e) ''https://youtu.be/abc''
     = Inr \<lparr>scheme = ''https'', query = None\<rparr>" by code_simp
  have 2: "get (searchParams \<lparr>scheme = ''https'', query = None\<rparr>) ''v'' = None" by code_simp
  have 3: "isYouTubeLink ''https://youtu.be/abc''" by code_simp
  have 4: "fetch ?e ''https://youtu.be/abc'' = Inr (sampleResponse 200 ''text/html'')"
    by (simp add: sampleEnv_def)
  have 5: "ok (sampleResponse 200 ''text/html'')" by (simp add: ok_def sampleResponse_def)
  from missing_video_id_is_invalid_input[of ?e "''https://youtu.be/abc''"
      "\<lparr>scheme = ''https'', query = None\<rparr>" "sampleResponse 200 ''text/html''"] 1 2 3 4 5
  show ?thesis by (simp add: InvalidInput_def)
qed

text \<open>
  C6 as first stated fails twice. \<open>youtu.be/abc\<close> is classified as YouTube and has no
  \<open>v\<close>, but it has no scheme either, and the extractor throws the parser's
  \<open>TypeError\<close>, not "Invalid YouTube URL". And \<open>https://youtu.be/\<close> is not classified as
  YouTube: \<open>fetchContentFromURL\<close> converts the page it is answered with and throws
  nothing.
\<close>

theorem missing_video_id_counterexample:
  "isYouTubeLink ''youtu.be/abc'' \<and>
   parseURL (platformValid (sampleEnv (sampleResponse 200 ''text/html''))) ''youtu.be/abc''
     = Inl (TypeError ''Invalid URL'') \<and>
   getYouTubeSubtitles (sampleEnv (sampleResponse 200 ''text/html'')) ''youtu.be/abc''
     = ([], Inl (TypeError ''Invalid URL'')) \<and>
   TypeError ''Invalid URL'' \<noteq> InvalidInput \<and>
   \<not> isYouTubeLink ''https://youtu.be/'' \<and>
   fetchContentFromURL (sampleEnv (sampleResponse 200 ''text/html'')) ''https://youtu.be/''
     = ([Fetch ''https://youtu.be/'', ResponseText ''https://youtu.be/''],
        Inr \<lparr>content = ''Hello'', size' = 72, type' = ''text/html'',
             url' = ''https://youtu.be/''\<rparr>)"
  by code_simp

text \<open>
  C7. On the URL path (success status, no YouTube link, a content type that contains
  \<open>application/pdf\<close> and not \<open>text/html\<close>) the document is requested a second time
  through \<open>axios\<close>, and on the buffer path it is given; on both, the record returned
  for the extracted text has that text as content, its length as size and the type
  \<open>application/pdf\<close>.
\<close>

theorem pdf_size_is_content_length:
  "(fetch env u = Inr r \<longrightarrow> ok r \<longrightarrow> \<not> isYouTubeLink u \<longrightarrow>
    \<not> includes' (contentType r) ''text/html'' \<longrightarrow>
    includes' (contentType r) ''application/pdf'' \<longrightarrow>
    axiosGet env u = Inr pdfBuffer \<longrightarrow> pdf env pdfBuffer = Inr pdfText \<longrightarrow>
      fetchContentFromURL env u =
        ([Fetch u, AxiosGet u],
         Inr \<lparr>content = pdfText, size' = length pdfText,
              type' = ''application/pdf'', url' = u\<rparr>)) \<and>
   (pdf env uploaded = Inr uploadedText \<longrightarrow>
      getPDFContentFromBuffer env uploaded =
        ([], Inr \<lparr>content = uploadedText, size' = length uploadedText,
                  type' = ''application/pdf''\<rparr>))"
proof (intro conjI impI)
  assume a: "fetch env u = Inr r" "ok r" "\<not> isYouTubeLink u"
    "\<not> includes' (contentType r) ''text/html''" "includes' (contentType r) ''application/pdf''"
    and b: "axiosGet env u = Inr pdfBuffer" "pdf env pdfBuffer = Inr pdfText"
  from fetch_pdf[OF a] b
  show "fetchContentFromURL env u =
        ([Fetch u, AxiosGet u],
         Inr \<lparr>content = pdfText, size' = length pdfText,
              type' = ''application/pdf'', url' = u\<rparr>)" by simp
next
  assume "pdf env uploaded = Inr uploadedText"
  then show "getPDFContentFromBuffer env uploaded =
        ([], Inr \<lparr>content = uploadedText, size' = length uploadedText,
                  type' = ''application/pdf''\<rparr>)"
    by (simp add: getPDFContentFromBuffer_def io_defs)
qed

theorem pdf_size_is_content_length_witness:
  "fetchContentFromURL (sampleEnv (sampleResponse 200 ''application/pdf'')) ''https://example.com/a.pdf''
     = ([Fetch ''https://example.com/a.pdf'', AxiosGet ''https://example.com/a.pdf''],
        Inr \<lparr>content = ''text of the document'', size' = 20,
             type' = ''application/pdf'', url' = ''https://example.com/a.pdf''\<rparr>) \<and>
   getPDFContentFromBuffer (sampleEnv (sampleResponse 200 ''application/pdf'')) ''%PDF-1.4''
     = ([], Inr \<lparr>content = ''text of the document'', size' = 20, type' = ''application/pdf''\<rparr>)"
proof -
  let ?r = "sampleResponse 200 ''application/pdf''"
  let ?u = "''https://example.com/a.pdf''"
  have 1: "fetch (sampleEnv ?r) ?u = Inr ?r" by (simp add: sampleEnv_def)
  have 2: "ok ?r" by (simp add: ok_def sampleResponse_def)
  have 3: "\<not> isYouTubeLink ?u" by code_simp
  have 4: "\<not> includes' (contentType ?r) ''text/html''" by code_simp
  have 5: "includes' (contentType ?r) ''application/pdf''" by code_simp
  have 6: "axiosGet (sampleEnv ?r) ?u = Inr ''%PDF-1.4''" by (simp add: sampleEnv_def)
  have 7: "pdf (sampleEnv ?r) ''%PDF-1.4'' = Inr ''text of the document''" by (simp add: sampleEnv_def)
  from pdf_size_is_content_length[of "sampleEnv ?r" ?u ?r "''%PDF-1.4''" "''text of the document''"
      "''%PDF-1.4''" "''text of the document''"] 1 2 3 4 5 6 7
  show ?thesis by simp
qed

text \<open>
  C8. For a response with a success status to a URL that is no YouTube link, whose
  content type contains neither \<open>text/html\<close> nor \<open>application/pdf\<close>,
  \<open>fetchContentFromURL\<close> throws the error "URL provided is not a PDF or HTML document"
  and returns no record.
\<close>

theorem unsupported_type_fails:
  assumes "fetch env u = Inr r" and "ok r" and "\<not> isYouTubeLink u"
    and "\<not> includes' (contentType r) ''text/html''"
    and "\<not> includes' (contentType r) ''application/pdf''"
  shows "fetchContentFromURL env u = ([Fetch u], Inl UnsupportedType)"
  using assms by (rule fetch_unsupported)

theorem unsupported_type_fails_witness:
  "fetch (sampleEnv (sampleResponse 200 ''application/json'')) ''https://example.com/data''
     = Inr (sampleResponse 200 ''application/json'') \<and>
   ok (sampleResponse 200 ''application/json'') \<and>
   \<not> isYouTubeLink ''https://example.com/data'' \<and>
   \<not> includes' (contentType (sampleResponse 200 ''application/json'')) ''text/html'' \<and>
   \<not> includes' (contentType (sampleResponse 200 ''application/json'')) ''application/pdf'' \<and>
   fetchContentFromURL (sampleEnv (sampleResponse 200 ''application/json'')) ''https://example.com/data''
     = ([Fetch ''https://example.com/data''],
        Inl (Error ''URL provided is not a PDF or HTML document''))"
proof -
  have 1: "fetch (sampleEnv (sampleResponse 200 ''application/json'')) ''https://example.com/data''
     = Inr (sampleResponse 200 ''application/json'')" by (simp add: sampleEnv_def)
  have 2: "ok (sampleResponse 200 ''application/json'')" by (simp add: ok_def sampleResponse_def)
  have 3: "\<not> isYouTubeLink ''https://example.com/data''" by code_simp
  have 4: "\<not> includes' (contentType (sampleResponse 200 ''application/json'')) ''text/html''"
    by code_simp
  have 5: "\<not> includes' (contentType (sampleResponse 200 ''application/json'')) ''application/pdf''"
    by code_simp
  from unsupported_type_fails[OF 1 2 3 4 5] 1 2 3 4 5 show ?thesis
    by (simp add: UnsupportedType_def)
qed

text \<open>
  C9. A URL that ends with the first slash after its optional \<open>http://\<close> or
  \<open>https://\<close>, such as \<open>https://youtu.be/\<close> or \<open>https://youtube.com/\<close>, is not
  classified as YouTube: the pattern wants a character after the slash. So
  \<open>fetchContentFromURL\<close> treats it by the status and the content type of the response
  and never asks the captions provider.
\<close>

theorem empty_path_is_not_a_youtube_link:
  assumes "CHR ''/'' \<notin> set h" and "s = [] \<or> s = ''http://'' \<or> s = ''https://''"
    and "u = s @ h @ ''/''"
  shows "\<not> isYouTubeLink u \<and>
     fetchContentFromURL env u =
       io_bind (io_call (Fetch u) (fetch env u)) (\<lambda>response.
         if \<not> ok response then io_throw FetchFailure
         else if includes' (contentType response) ''text/html'' then
           io_bind (io_call (ResponseText u) (responseText response)) (\<lambda>htmlContent.
           io_bind (io_pure (htmlToMarkdown env htmlContent)) (\<lambda>markdownContent.
             io_return \<lparr>content = markdownContent, size' = length htmlContent,
                        type' = ''text/html'', url' = u\<rparr>))
         else if includes' (contentType response) ''application/pdf'' then
           io_bind (io_call (AxiosGet u) (axiosGet env u)) (\<lambda>pdfBuffer.
           io_bind (io_pure (pdf env pdfBuffer)) (\<lambda>pdfText.
             io_return \<lparr>content = pdfText, size' = length pdfText,
                        type' = ''application/pdf'', url' = u\<rparr>))
         else io_throw UnsupportedType) \<and>
     (\<forall>videoId. FetchTranscript videoId \<notin> set (fst (fetchContentFromURL env u)))"
proof -
  from empty_path_rejected[OF assms(1) assms(2)] assms(3) have n: "\<not> isYouTubeLink u" by simp
  from n not_youtube_dispatch[OF n, of env] not_youtube_requests[OF n, of _ env]
  show ?thesis by blast
qed

theorem empty_path_is_not_a_youtube_link_witness:
  "CHR ''/'' \<notin> set ''youtu.be'' \<and>
   ''https://youtu.be/'' = ''https://'' @ ''youtu.be'' @ ''/'' \<and>
   \<not> isYouTubeLink ''https://youtu.be/'' \<and>
   \<not> isYouTubeLink ''https://youtube.com/'' \<and>
   fetchContentFromURL (sampleEnv (sampleResponse 200 ''text/html'')) ''https://youtu.be/''
     = ([Fetch ''https://youtu.be/'', ResponseText ''https://youtu.be/''],
        Inr \<lparr>content = ''Hello'', size' = 72, type' = ''text/html'',
             url' = ''https://youtu.be/''\<rparr>)"
proof -
  let ?e = "sampleEnv (sampleResponse 200 ''text/html'')"
  have 1: "CHR ''/'' \<notin> set ''youtu.be''" by simp
  have 2: "''https://'' = [] \<or> ''https://'' = ''http://'' \<or> ''https://'' = ''https://''" by simp
  have 3: "''https://youtu.be/'' = ''https://'' @ ''youtu.be'' @ ''/''" by simp
  have 4: "io_bind (io_call (Fetch ''https://youtu.be/'') (fetch ?e ''https://youtu.be/'')) (\<lambda>response.
         if \<not> ok response then io_throw FetchFailure
         else if includes' (contentType response) ''text/html'' then
           io_bind (io_call (ResponseText ''https://youtu.be/'') (responseText response)) (\<lambda>htmlContent.
           io_bind (io_pure (htmlToMarkdown ?e htmlContent)) (\<lambda>markdownContent.
             io_return \<lparr>content = markdownContent, size' = length htmlContent,
                        type' = ''text/html'', url' = ''https://youtu.be/''\<rparr>))
         else if includes' (contentType response) ''application/pdf'' then
           io_bind (io_call (AxiosGet ''https://youtu.be/'') (axiosGet ?e ''https://youtu.be/'')) (\<lambda>pdfBuffer.
           io_bind (io_pure (pdf ?e pdfBuffer)) (\<lambda>pdfText.
             io_return \<lparr>content = pdfText, size' = length pdfText,
                        type' = ''application/pdf'', url' = ''https://youtu.be/''\<rparr>))
         else io_throw UnsupportedType)
     = ([Fetch ''https://youtu.be/'', ResponseText ''https://youtu.be/''],
        Inr \<lparr>content = ''Hello'', size' = 72, type' = ''text/html'',
             url' = ''https://youtu.be/''\<rparr>)" by code_simp
  from empty_path_is_not_a_youtube_link[where u = "''https://youtu.be/''" and env = ?e, OF 1 2 3]
  have "\<not> isYouTubeLink ''https://youtu.be/''"
    and "fetchContentFromURL ?e ''https://youtu.be/''
     = ([Fetch ''https://youtu.be/'', ResponseText ''https://youtu.be/''],
        Inr \<lparr>content = ''Hello'', size' = 72, type' = ''text/html'',
             url' = ''https://youtu.be/''\<rparr>)"
    unfolding 4 by blast+
  moreover have "\<not> isYouTubeLink ''https://youtube.com/''"
    using empty_path_is_not_a_youtube_link[where u = "''https://youtube.com/''"
        and h = "''youtube.com''" and s = "''https://''" and env = ?e] by simp
  ultimately show ?thesis using 1 3 by blast
qed

text \<open>
  C10. For a URL that the classifier accepts and in which the URL parser finds no
  scheme, such as \<open>youtube.com/watch?v=abc\<close>, \<open>getYouTubeSubtitles\<close> throws the
  parser's \<open>TypeError\<close>, which is not the error "Invalid YouTube URL", and asks the
  captions provider nothing.
\<close>

theorem schemeless_link_is_a_parse_error:
  assumes "isYouTubeLink u" and "schemeless u"
  shows "getYouTubeSubtitles env u = ([], Inl (TypeError ''Invalid URL'')) \<and>
         TypeError ''Invalid URL'' \<noteq> InvalidInput"
  using assms(2)
  by (simp add: getYouTubeSubtitles_def parseURL_def schemeless_def io_defs InvalidInput_def)

theorem schemeless_link_is_a_parse_error_witness:
  "isYouTubeLink ''youtube.com/watch?v=abc'' \<and> schemeless ''youtube.com/watch?v=abc'' \<and>
   getYouTubeSubtitles (sampleEnv (sampleResponse 200 ''text/html'')) ''youtube.com/watch?v=abc''
     = ([], Inl (TypeError ''Invalid URL''))"
proof -
  have 1: "isYouTubeLink ''youtube.com/watch?v=abc''" by code_simp
  have 2: "schemeless ''youtube.com/watch?v=abc''" by code_simp
  from schemeless_link_is_a_parse_error[OF 1 2, of "sampleEnv (sampleResponse 200 ''text/html'')"] 1 2
  show ?thesis by simp
qed

end
